theory Spec2Isabelle
  imports Complex_Main "HOL-Library.Log_Nat"
begin

section \<open>The media backend, as the pipeline sees it\<close>

text \<open>
  The pipeline of \<^verbatim>\<open>tracker.py\<close> talks to four external collaborators: the video
  backend (\<^verbatim>\<open>cv2.VideoCapture\<close>, \<^verbatim>\<open>cv2.VideoWriter\<close>), the \<^verbatim>\<open>ffmpeg\<close> binary, the
  detection model and the tracker. None of them is code of the repository. The backend is
  modelled by the few observations the pipeline makes of it; the transcoder, the detector
  and the tracker are parameters of the embedded functions.

  A Python float is the real it denotes; the two float operations of \<^verbatim>\<open>process_camera\<close>
  round as the machine does (see the section on float arithmetic). \<^verbatim>\<open>print\<close> calls are
  left out.
\<close>

type_synonym path = string

text \<open>
  What a media container or a camera device offers to \<^verbatim>\<open>cv2.VideoCapture\<close>: whether it
  opens at all, the frames that successive \<^verbatim>\<open>read()\<close> calls decode before the first
  failing read, and the three properties the pipeline queries. Both loops stop at the
  first failing read, so nothing after it is observed. A file has finitely many frames. A
  camera that never fails is any stream at least as long as the bound of the camera loop,
  which does not read past its bound.
\<close>

record 'f video =
  v_opens :: bool
  v_frames :: "'f list"
  v_width :: real
  v_height :: real
  v_fps :: real

text \<open>
  The part of the machine a run can change or observe: files by path, camera devices by
  index, and the log of attempted \<^verbatim>\<open>ffmpeg\<close> invocations (input path, output path).
\<close>

record 'f world =
  fs :: "path \<rightharpoonup> 'f video"
  cameras :: "int \<rightharpoonup> 'f video"
  ffmpeg_runs :: "(path \<times> path) list"

text \<open>
  A \<^verbatim>\<open>cv2.VideoCapture\<close> object: the stream it decodes, the index of the next frame
  (the number of frames read successfully so far), and whether \<^verbatim>\<open>release()\<close> was called.
\<close>

record 'f capture =
  cap_opened :: bool
  cap_frames :: "'f list"
  cap_pos :: nat
  cap_released :: bool
  cap_width :: real
  cap_height :: real
  cap_fps :: real

text \<open>
  \<^verbatim>\<open>cv2.VideoCapture(target)\<close>, given what the target resolves to (\<open>None\<close> for a path
  or a device index that does not exist). A capture that failed to open reports 0 for
  every property and never yields a frame.
\<close>

definition VideoCapture :: "'f video option \<Rightarrow> 'f capture" where
  "VideoCapture target =
     (case target of
        None \<Rightarrow>
          \<lparr>cap_opened = False, cap_frames = [], cap_pos = 0, cap_released = False,
           cap_width = 0, cap_height = 0, cap_fps = 0\<rparr>
      | Some v \<Rightarrow>
          if v_opens v then
            \<lparr>cap_opened = True, cap_frames = v_frames v, cap_pos = 0, cap_released = False,
             cap_width = v_width v, cap_height = v_height v, cap_fps = v_fps v\<rparr>
          else
            \<lparr>cap_opened = False, cap_frames = [], cap_pos = 0, cap_released = False,
             cap_width = 0, cap_height = 0, cap_fps = 0\<rparr>)"

text \<open>\<^verbatim>\<open>ret, frame = cap.read()\<close>: \<open>None\<close> stands for \<^verbatim>\<open>ret == False\<close>.\<close>

definition cap_read :: "'f capture \<Rightarrow> 'f option \<times> 'f capture" where
  "cap_read c =
     (if cap_opened c \<and> \<not> cap_released c \<and> cap_pos c < length (cap_frames c)
      then (Some (cap_frames c ! cap_pos c), c\<lparr>cap_pos := Suc (cap_pos c)\<rparr>)
      else (None, c))"

definition cap_release :: "'f capture \<Rightarrow> 'f capture" where
  "cap_release c = c\<lparr>cap_released := True\<rparr>"

text \<open>
  How a \<^verbatim>\<open>subprocess.run\<close> of the transcoder ends: the process exits with a status, or
  the binary is not found. The transcoder itself is a parameter: from the file system, the
  input path and the output path it gives the outcome and the file system it leaves.
\<close>

datatype proc_outcome = Exited int | Binary_missing

type_synonym 'f transcoder =
  "(path \<rightharpoonup> 'f video) \<Rightarrow> path \<Rightarrow> path \<Rightarrow> proc_outcome \<times> (path \<rightharpoonup> 'f video)"

text \<open>
  The exceptions a run can end with: the two that \<^verbatim>\<open>subprocess.run(..., check=True)\<close>
  raises, the two \<^verbatim>\<open>raise Exception(...)\<close> statements of \<^verbatim>\<open>tracker.py\<close>, the
  \<^verbatim>\<open>OverflowError\<close> of a float conversion, and whatever a collaborator raises inside the
  frame loop.
\<close>

datatype 'e exn =
    CalledProcessError int
  | FileNotFoundError
  | Failed_to_open_video_file
  | Failed_to_open_camera int
  | OverflowError
  | Raised 'e

section \<open>The codec repair step\<close>

text \<open>
  \<^verbatim>\<open>fix_video_codec(input_path, output_path)\<close>: probe one frame, release the probe, and
  transcode only when the probe failed. \<^verbatim>\<open>check=True\<close> turns a non-zero exit status into
  \<^verbatim>\<open>CalledProcessError\<close>; a missing binary raises \<^verbatim>\<open>FileNotFoundError\<close>.
\<close>

definition fix_video_codec ::
  "'f transcoder \<Rightarrow> 'f world \<Rightarrow> path \<Rightarrow> path \<Rightarrow> ('e exn + path) \<times> 'f world" where
  "fix_video_codec ffmpeg w input_path output_path =
     (let cap_test = VideoCapture (fs w input_path);
          (ret, cap_test1) = cap_read cap_test;
          cap_test2 = cap_release cap_test1
      in if ret = None then
           (let w1 = w\<lparr>ffmpeg_runs := ffmpeg_runs w @ [(input_path, output_path)]\<rparr>
            in case ffmpeg (fs w) input_path output_path of
                 (Binary_missing, fs1) \<Rightarrow> (Inl FileNotFoundError, w1)
               | (Exited rc, fs1) \<Rightarrow>
                   if rc \<noteq> 0 then (Inl (CalledProcessError rc), w1\<lparr>fs := fs1\<rparr>)
                   else (Inr output_path, w1\<lparr>fs := fs1\<rparr>))
         else (Inr input_path, w))"

text \<open>The probe of \<^verbatim>\<open>fix_video_codec\<close> succeeds: the first frame of the input decodes.\<close>

definition first_frame_decodes :: "'f world \<Rightarrow> path \<Rightarrow> bool" where
  "first_frame_decodes w p = (fst (cap_read (VideoCapture (fs w p))) \<noteq> None)"

section \<open>The detector adapter\<close>

text \<open>\<^verbatim>\<open>int(x)\<close> on a float: truncation toward zero.\<close>

definition py_int :: "real \<Rightarrow> int" where
  "py_int x = (if 0 \<le> x then \<lfloor>x\<rfloor> else \<lceil>x\<rceil>)"

text \<open>
  One box of \<^verbatim>\<open>results.boxes\<close>: the tensors \<^verbatim>\<open>box.cls[0]\<close>, \<^verbatim>\<open>box.conf[0]\<close> and
  \<^verbatim>\<open>box.xyxy[0]\<close>, read as floats. Class index 0 is the person class of the model.
\<close>

record raw_box =
  box_cls :: real
  box_conf :: real
  box_xyxy :: "real \<times> real \<times> real \<times> real"

text \<open>A retained detection, the tuple \<^verbatim>\<open>([x1, y1, w, h], conf, "person")\<close>.\<close>

type_synonym detection = "int list \<times> real \<times> string"

text \<open>The \<^verbatim>\<open>for box in results.boxes\<close> loop, appending to \<^verbatim>\<open>detections\<close>.\<close>

fun collect_detections :: "raw_box list \<Rightarrow> real \<Rightarrow> detection list \<Rightarrow> detection list" where
  "collect_detections [] confidence_threshold detections = detections"
| "collect_detections (box # boxes) confidence_threshold detections =
     (let cls = py_int (box_cls box);
          conf = box_conf box
      in if cls = 0 \<and> conf > confidence_threshold then
           (case box_xyxy box of
              (a, b, c, d) \<Rightarrow>
                let x1 = py_int a; y1 = py_int b; x2 = py_int c; y2 = py_int d;
                    w = x2 - x1; h = y2 - y1
                in collect_detections boxes confidence_threshold
                     (detections @ [([x1, y1, w, h], conf, ''person'')]))
         else collect_detections boxes confidence_threshold detections)"

text \<open>
  \<^verbatim>\<open>get_detections(frame, model, confidence_threshold)\<close>. The model is the parameter
  \<open>predict\<close>; it returns the boxes of the frame or raises.
\<close>

definition get_detections ::
  "'f \<Rightarrow> ('f \<Rightarrow> 'e + raw_box list) \<Rightarrow> real \<Rightarrow> 'e + detection list" where
  "get_detections frame predict confidence_threshold =
     (case predict frame of
        Inl e \<Rightarrow> Inl e
      | Inr boxes \<Rightarrow> Inr (collect_detections boxes confidence_threshold []))"

section \<open>Tracks and the annotator\<close>

text \<open>
  What the pipeline reads of a track object of the tracker: \<^verbatim>\<open>track.track_id\<close>,
  \<^verbatim>\<open>track.is_confirmed()\<close> and \<^verbatim>\<open>track.to_ltrb(orig=True)\<close>, which may be \<^verbatim>\<open>None\<close>.
\<close>

record 'id track =
  track_id :: 'id
  is_confirmed :: bool
  to_ltrb :: "(real \<times> real \<times> real \<times> real) option"

text \<open>
  What \<^verbatim>\<open>cv2.rectangle\<close> and \<^verbatim>\<open>cv2.putText\<close> put on a frame, without colours and fonts:
  a box by its corners, the label \<^verbatim>\<open>ID: {track_id}\<close> at its position, and the two counter
  texts \<^verbatim>\<open>People Count: {n}\<close> and \<^verbatim>\<open>Total Unique: {n}\<close>, which have fixed positions.
\<close>

datatype 'id drawing =
    Rectangle int int int int
  | Id_label 'id int int
  | People_count nat
  | Total_unique nat

text \<open>A frame: its decoded picture and what has been drawn on it, in drawing order.\<close>

record ('p, 'id) frame =
  pixels :: 'p
  drawings :: "'id drawing list"

definition draw :: "'id drawing \<Rightarrow> ('p, 'id) frame \<Rightarrow> ('p, 'id) frame" where
  "draw d frame = frame\<lparr>drawings := drawings frame @ [d]\<rparr>"

text \<open>
  The \<^verbatim>\<open>for track in tracks\<close> loop of \<^verbatim>\<open>draw_tracking_info\<close>. It draws on the frame and
  adds to the caller's set \<^verbatim>\<open>active_ids\<close>; both are returned.
\<close>

fun draw_tracks ::
  "'id track list \<Rightarrow> ('p, 'id) frame \<Rightarrow> 'id set \<Rightarrow> ('p, 'id) frame \<times> 'id set" where
  "draw_tracks [] frame active_ids = (frame, active_ids)"
| "draw_tracks (tr # tracks) frame active_ids =
     (if \<not> is_confirmed tr then draw_tracks tracks frame active_ids
      else
        let tid = track_id tr;
            active_ids1 = insert tid active_ids
        in case to_ltrb tr of
             None \<Rightarrow> draw_tracks tracks frame active_ids1
           | Some (l, t, r, b) \<Rightarrow>
               let x1 = py_int l; y1 = py_int t; x2 = py_int r; y2 = py_int b;
                   frame1 = draw (Rectangle x1 y1 x2 y2) frame;
                   frame2 = draw (Id_label tid x1 (y1 - 10)) frame1
               in draw_tracks tracks frame2 active_ids1)"

text \<open>
  \<^verbatim>\<open>draw_tracking_info(frame, tracks, active_ids, unique_ids)\<close>. The Python function
  returns the frame and mutates \<^verbatim>\<open>active_ids\<close>; the model returns both.
\<close>

definition draw_tracking_info ::
  "('p, 'id) frame \<Rightarrow> 'id track list \<Rightarrow> 'id set \<Rightarrow> 'id set \<Rightarrow> ('p, 'id) frame \<times> 'id set" where
  "draw_tracking_info frame tracks active_ids unique_ids =
     (case draw_tracks tracks frame active_ids of
        (frame1, active_ids1) \<Rightarrow>
          let frame2 = draw (People_count (card active_ids1)) frame1;
              frame3 = draw (Total_unique (card unique_ids)) frame2
          in (frame3, active_ids1))"

section \<open>The frame sink\<close>

text \<open>
  A \<^verbatim>\<open>cv2.VideoWriter\<close>: the path, frame rate and size it was made with, the frames
  written so far, and whether \<^verbatim>\<open>release()\<close> was called. Making the writer creates the
  container file, which is not a playable video until the writer is released.
\<close>

record 'f writer =
  w_path :: path
  w_fps :: real
  w_size :: "int \<times> int"
  w_frames :: "'f list"
  w_released :: bool

definition VideoWriter :: "'f world \<Rightarrow> path \<Rightarrow> real \<Rightarrow> int \<times> int \<Rightarrow> 'f writer \<times> 'f world" where
  "VideoWriter w output_path fps frame_size =
     (\<lparr>w_path = output_path, w_fps = fps, w_size = frame_size, w_frames = [],
       w_released = False\<rparr>,
      w\<lparr>fs := (fs w)(output_path \<mapsto>
           \<lparr>v_opens = False, v_frames = [], v_width = real_of_int (fst frame_size),
            v_height = real_of_int (snd frame_size), v_fps = fps\<rparr>)\<rparr>)"

definition writer_write :: "'f writer \<Rightarrow> 'f \<Rightarrow> 'f writer" where
  "writer_write out frame = out\<lparr>w_frames := w_frames out @ [frame]\<rparr>"

definition writer_release :: "'f writer \<Rightarrow> 'f world \<Rightarrow> 'f writer \<times> 'f world" where
  "writer_release out w =
     (out\<lparr>w_released := True\<rparr>,
      w\<lparr>fs := (fs w)(w_path out \<mapsto>
           \<lparr>v_opens = True, v_frames = w_frames out, v_width = real_of_int (fst (w_size out)),
            v_height = real_of_int (snd (w_size out)), v_fps = w_fps out\<rparr>)\<rparr>)"

section \<open>Float arithmetic\<close>

text \<open>
  A Python float is an IEEE 754 binary64 number. The floats the pipeline only stores,
  compares or truncates (confidences, box corners, the frame rate and the frame size a
  device reports) are the reals they denote. The two float operations whose rounding
  reaches a result, the product \<^verbatim>\<open>duration_seconds * fps\<close> and the quotient
  \<^verbatim>\<open>frame_count / fps\<close> of \<^verbatim>\<open>process_camera\<close>, are rounded here as the machine rounds
  them: to the nearest double, ties to the even significand, and to an infinity beyond the
  largest double.
\<close>

text \<open>\<open>pow2 k\<close> is \<open>2\<close> to the power \<open>k\<close>, for an integer \<open>k\<close>.\<close>

definition pow2 :: "int \<Rightarrow> real" where
  "pow2 k = (if 0 \<le> k then 2 ^ nat k else 1 / 2 ^ nat (- k))"

text \<open>The binary exponent of a positive real \<open>x\<close>: the \<open>e\<close> with \<open>2^e \<le> x < 2^(e+1)\<close>.\<close>

definition expo :: "real \<Rightarrow> int" where
  "expo x = (if 1 \<le> x then bitlen \<lfloor>x\<rfloor> - 1 else - bitlen (\<lceil>1 / x\<rceil> - 1))"

text \<open>Rounding to the nearest integer, a tie to the even one.\<close>

definition round_even :: "real \<Rightarrow> int" where
  "round_even y =
     (let f = \<lfloor>y\<rfloor>; r = y - real_of_int f
      in if r < 1 / 2 then f else if 1 / 2 < r then f + 1 else if even f then f else f + 1)"

text \<open>
  The result of a float operation: a finite double, by the real it denotes, or an
  infinity. No operation of the pipeline yields a NaN from finite operands.
\<close>

datatype double = Finite real | Plus_inf | Minus_inf

text \<open>
  The double nearest to a real: a significand of 53 bits, a least exponent of \<open>-1022\<close>
  (below it the spacing of the subnormal numbers, \<open>2^-1074\<close>, stays), and overflow to an
  infinity when the rounded value reaches \<open>2^1024\<close>.
\<close>

definition to_double :: "real \<Rightarrow> double" where
  "to_double x =
     (if x = 0 then Finite 0
      else
        let e = max (expo \<bar>x\<bar>) (- 1022);
            q = pow2 (e - 52);
            r = q * real_of_int (round_even (x / q))
        in if \<bar>r\<bar> < pow2 1024 then Finite r else if 0 < x then Plus_inf else Minus_inf)"

text \<open>
  The conversion of a Python \<^verbatim>\<open>int\<close> operand of a float operation: the nearest double;
  \<^verbatim>\<open>OverflowError\<close> (\<open>None\<close>) when the integer is too large for one.
\<close>

definition float_of_int :: "int \<Rightarrow> real option" where
  "float_of_int n = (case to_double (real_of_int n) of Finite r \<Rightarrow> Some r | _ \<Rightarrow> None)"

text \<open>\<^verbatim>\<open>a * b\<close> and \<^verbatim>\<open>a / b\<close> on floats, for \<open>b\<close> other than 0.\<close>

definition float_mul :: "real \<Rightarrow> real \<Rightarrow> double" where
  "float_mul a b = to_double (a * b)"

definition float_div :: "real \<Rightarrow> real \<Rightarrow> double" where
  "float_div a b = to_double (a / b)"

text \<open>\<^verbatim>\<open>int(x)\<close> on the result of a float operation: \<^verbatim>\<open>OverflowError\<close> on an infinity.\<close>

definition int_of_float :: "double \<Rightarrow> int option" where
  "int_of_float d = (case d of Finite r \<Rightarrow> Some (py_int r) | _ \<Rightarrow> None)"

text \<open>\<^verbatim>\<open>int(n * x)\<close> for an \<^verbatim>\<open>int\<close> \<open>n\<close> and a float \<open>x\<close>.\<close>

definition int_of_product :: "int \<Rightarrow> real \<Rightarrow> int option" where
  "int_of_product n x =
     (case float_of_int n of
        None \<Rightarrow> None
      | Some a \<Rightarrow> int_of_float (float_mul a x))"

section \<open>The pipeline orchestrator\<close>

text \<open>
  The collaborators a run is given: the transcoder, the detection model (\<^verbatim>\<open>load_model()\<close>
  with its \<^verbatim>\<open>predict\<close>), and the tracker (\<^verbatim>\<open>initialize_tracker()\<close> with its
  \<^verbatim>\<open>update_tracks\<close>, which takes and returns the tracker's internal state).
\<close>

record ('p, 'e, 'ts, 'id) collaborators =
  ffmpeg :: "('p, 'id) frame transcoder"
  predict :: "('p, 'id) frame \<Rightarrow> 'e + raw_box list"
  initialize_tracker :: 'ts
  update_tracks ::
    "'ts \<Rightarrow> detection list \<Rightarrow> ('p, 'id) frame \<Rightarrow> 'e + ('id track list \<times> 'ts)"

text \<open>The loop \<^verbatim>\<open>for track in tracks: if track.is_confirmed(): unique_ids.add(...)\<close>.\<close>

fun add_confirmed :: "'id track list \<Rightarrow> 'id set \<Rightarrow> 'id set" where
  "add_confirmed [] unique_ids = unique_ids"
| "add_confirmed (tr # tracks) unique_ids =
     (if is_confirmed tr then add_confirmed tracks (insert (track_id tr) unique_ids)
      else add_confirmed tracks unique_ids)"

text \<open>The variables the frame loop updates.\<close>

record ('p, 'ts, 'id) loop_vars =
  unique_ids :: "'id set"
  frame_count :: int
  tracker :: 'ts
  out :: "('p, 'id) frame writer"

text \<open>
  The body of the frame loop after a successful read; it is the same text in
  \<^verbatim>\<open>process_video\<close> and in \<^verbatim>\<open>process_camera\<close>. When a collaborator raises, the
  exception leaves the loop with the variables as they are at that point.
\<close>

definition frame_body ::
  "('p, 'e, 'ts, 'id) collaborators \<Rightarrow> real \<Rightarrow> ('p, 'ts, 'id) loop_vars \<Rightarrow> ('p, 'id) frame \<Rightarrow>
     ('e \<times> ('p, 'ts, 'id) loop_vars) + ('p, 'ts, 'id) loop_vars" where
  "frame_body C confidence_threshold vs frame =
     (let vs1 = vs\<lparr>frame_count := frame_count vs + 1\<rparr>
      in case get_detections frame (predict C) confidence_threshold of
           Inl e \<Rightarrow> Inl (e, vs1)
         | Inr detections \<Rightarrow>
             (case update_tracks C (tracker vs1) detections frame of
                Inl e \<Rightarrow> Inl (e, vs1)
              | Inr (tracks, ts) \<Rightarrow>
                  let active_ids = {};
                      ids = add_confirmed tracks (unique_ids vs1);
                      frame1 = fst (draw_tracking_info frame tracks active_ids ids)
                  in Inr (vs1\<lparr>unique_ids := ids, tracker := ts,
                             out := writer_write (out vs1) frame1\<rparr>)))"

text \<open>
  \<^verbatim>\<open>while True\<close> of \<^verbatim>\<open>process_video\<close>: it ends when a read fails, or with an exception
  of the body. The result is the exception (if any), the capture and the loop variables.
\<close>

function video_loop ::
  "('p, 'e, 'ts, 'id) collaborators \<Rightarrow> real \<Rightarrow> ('p, 'id) frame capture \<Rightarrow>
     ('p, 'ts, 'id) loop_vars \<Rightarrow>
     'e option \<times> ('p, 'id) frame capture \<times> ('p, 'ts, 'id) loop_vars" where
  "video_loop C confidence_threshold cap vs =
     (case cap_read cap of
        (None, cap1) \<Rightarrow> (None, cap1, vs)
      | (Some frame, cap1) \<Rightarrow>
          (case frame_body C confidence_threshold vs frame of
             Inl (e, vs1) \<Rightarrow> (Some e, cap1, vs1)
           | Inr vs1 \<Rightarrow> video_loop C confidence_threshold cap1 vs1))"
  by pat_completeness auto
termination
  by (relation "measure (\<lambda>(C, t, cap, vs). length (cap_frames cap) - cap_pos cap)")
     (auto simp: cap_read_def split: if_splits)

text \<open>
  \<^verbatim>\<open>while frame_count < max_frames\<close> of \<^verbatim>\<open>process_camera\<close>: it ends when the count
  reaches \<open>max_frames\<close>, when a read fails, or with an exception of the body. It
  terminates by the bound alone, however long the camera keeps delivering frames.
\<close>

function camera_loop ::
  "('p, 'e, 'ts, 'id) collaborators \<Rightarrow> real \<Rightarrow> int \<Rightarrow> ('p, 'id) frame capture \<Rightarrow>
     ('p, 'ts, 'id) loop_vars \<Rightarrow>
     'e option \<times> ('p, 'id) frame capture \<times> ('p, 'ts, 'id) loop_vars" where
  "camera_loop C confidence_threshold max_frames cap vs =
     (if frame_count vs < max_frames then
        (case cap_read cap of
           (None, cap1) \<Rightarrow> (None, cap1, vs)
         | (Some frame, cap1) \<Rightarrow>
             (case frame_body C confidence_threshold vs frame of
                Inl (e, vs1) \<Rightarrow> (Some e, cap1, vs1)
              | Inr vs1 \<Rightarrow> camera_loop C confidence_threshold max_frames cap1 vs1))
      else (None, cap, vs))"
  by pat_completeness auto
termination
  by (relation "measure (\<lambda>(C, t, max_frames, cap, vs). nat (max_frames - frame_count vs))")
     (auto simp: frame_body_def Let_def split: sum.splits prod.splits)

text \<open>\<^verbatim>\<open>output_path.replace('.mp4', '_fixed.mp4')\<close>: every occurrence, left to right.\<close>

fun replace_mp4 :: "string \<Rightarrow> string" where
  "replace_mp4 (a # b # c # d # rest) =
     (if [a, b, c, d] = ''.mp4'' then ''_fixed.mp4'' @ replace_mp4 rest
      else a # replace_mp4 (b # c # d # rest))"
| "replace_mp4 s = s"

text \<open>The dictionaries the two entry points return.\<close>

record video_result =
  total_unique_people :: int
  total_frames :: int

record camera_result = video_result +
  duration_seconds :: double

text \<open>
  What a run leaves behind, whether it returned or raised: the world, the capture and the
  writer as far as they were made, and the set \<^verbatim>\<open>unique_ids\<close> as it stood.
\<close>

record ('p, 'id) exit_state =
  world :: "('p, 'id) frame world"
  source :: "('p, 'id) frame capture option"
  sink :: "('p, 'id) frame writer option"
  ids :: "'id set"

text \<open>
  \<^verbatim>\<open>process_video(input_path, output_path, confidence_threshold)\<close>. There is no
  \<^verbatim>\<open>try\<close> in it: the statements after the loop run only when the loop ends by a failed
  read.
\<close>

definition process_video ::
  "('p, 'e, 'ts, 'id) collaborators \<Rightarrow> ('p, 'id) frame world \<Rightarrow> path \<Rightarrow> path \<Rightarrow> real \<Rightarrow>
     ('e exn + video_result) \<times> ('p, 'id) exit_state" where
  "process_video C w input_path output_path confidence_threshold =
     (let fixed_path = replace_mp4 output_path
      in case fix_video_codec (ffmpeg C) w input_path fixed_path of
           (Inl e, w1) \<Rightarrow> (Inl e, \<lparr>world = w1, source = None, sink = None, ids = {}\<rparr>)
         | (Inr video_path, w1) \<Rightarrow>
             let cap = VideoCapture (fs w1 video_path)
             in if \<not> cap_opened cap then
                  (Inl Failed_to_open_video_file,
                   \<lparr>world = w1, source = Some cap, sink = None, ids = {}\<rparr>)
                else
                  let width = py_int (cap_width cap);
                      height = py_int (cap_height cap);
                      fps = cap_fps cap;
                      (out0, w2) = VideoWriter w1 output_path fps (width, height);
                      vs0 = \<lparr>unique_ids = {}, frame_count = 0,
                             tracker = initialize_tracker C, out = out0\<rparr>
                  in case video_loop C confidence_threshold cap vs0 of
                       (Some e, cap1, vs) \<Rightarrow>
                         (Inl (Raised e),
                          \<lparr>world = w2, source = Some cap1, sink = Some (out vs),
                           ids = unique_ids vs\<rparr>)
                     | (None, cap1, vs) \<Rightarrow>
                         let cap2 = cap_release cap1;
                             (out1, w3) = writer_release (out vs) w2;
                             w4 = (if video_path \<noteq> input_path then
                                     (if fs w3 video_path \<noteq> None
                                      then w3\<lparr>fs := (fs w3)(video_path := None)\<rparr>
                                      else w3)
                                   else w3)
                         in (Inr \<lparr>total_unique_people = int (card (unique_ids vs)),
                                  total_frames = frame_count vs\<rparr>,
                             \<lparr>world = w4, source = Some cap2, sink = Some out1,
                              ids = unique_ids vs\<rparr>))"

text \<open>
  \<^verbatim>\<open>process_camera(camera_index, output_path, duration_seconds, confidence_threshold)\<close>.
  \<^verbatim>\<open>cap.get\<close> returns a float, so of \<^verbatim>\<open>fps == 0 or fps is None\<close> only the first test
  can hold. \<^verbatim>\<open>max_frames = int(duration_seconds * fps)\<close> multiplies an \<^verbatim>\<open>int\<close> by a
  float and \<^verbatim>\<open>frame_count / fps\<close> divides an \<^verbatim>\<open>int\<close> by a float: the integer is
  converted to a float, the operation rounds, and \<^verbatim>\<open>int\<close> truncates. A conversion that
  overflows raises \<^verbatim>\<open>OverflowError\<close> where it stands: the first after the writer is
  made, the second after both handles are released.
\<close>

definition process_camera ::
  "('p, 'e, 'ts, 'id) collaborators \<Rightarrow> ('p, 'id) frame world \<Rightarrow> int \<Rightarrow> path \<Rightarrow> int \<Rightarrow> real \<Rightarrow>
     ('e exn + camera_result) \<times> ('p, 'id) exit_state" where
  "process_camera C w camera_index output_path duration confidence_threshold =
     (let cap = VideoCapture (cameras w camera_index)
      in if \<not> cap_opened cap then
           (Inl (Failed_to_open_camera camera_index),
            \<lparr>world = w, source = Some cap, sink = None, ids = {}\<rparr>)
         else
           let width = py_int (cap_width cap);
               height = py_int (cap_height cap);
               fps0 = cap_fps cap;
               fps = (if fps0 = 0 then 30 else fps0);
               (out0, w1) = VideoWriter w output_path fps (width, height);
               vs0 = \<lparr>unique_ids = {}, frame_count = 0,
                      tracker = initialize_tracker C, out = out0\<rparr>
           in case int_of_product duration fps of
                None \<Rightarrow>
                  (Inl OverflowError,
                   \<lparr>world = w1, source = Some cap, sink = Some out0, ids = {}\<rparr>)
              | Some max_frames \<Rightarrow>
                  (case camera_loop C confidence_threshold max_frames cap vs0 of
                     (Some e, cap1, vs) \<Rightarrow>
                       (Inl (Raised e),
                        \<lparr>world = w1, source = Some cap1, sink = Some (out vs),
                         ids = unique_ids vs\<rparr>)
                   | (None, cap1, vs) \<Rightarrow>
                       let cap2 = cap_release cap1;
                           (out1, w2) = writer_release (out vs) w1
                       in case float_of_int (frame_count vs) of
                            None \<Rightarrow>
                              (Inl OverflowError,
                               \<lparr>world = w2, source = Some cap2, sink = Some out1,
                                ids = unique_ids vs\<rparr>)
                          | Some count \<Rightarrow>
                              let actual_duration = float_div count fps
                              in (Inr \<lparr>total_unique_people = int (card (unique_ids vs)),
                                       total_frames = frame_count vs,
                                       duration_seconds = actual_duration\<rparr>,
                                  \<lparr>world = w2, source = Some cap2, sink = Some out1,
                                   ids = unique_ids vs\<rparr>)))"

section \<open>Notions used to state the properties\<close>

text \<open>
  The tuple \<^verbatim>\<open>get_detections\<close> makes of a retained box: corners truncated to integers and
  converted to origin and size.
\<close>

definition as_detection :: "raw_box \<Rightarrow> detection" where
  "as_detection box =
     (case box_xyxy box of
        (a, b, c, d) \<Rightarrow>
          ([py_int a, py_int b, py_int c - py_int a, py_int d - py_int b], box_conf box,
           ''person''))"

text \<open>The identities of the confirmed tracks of a track list.\<close>

definition confirmed_ids :: "'id track list \<Rightarrow> 'id set" where
  "confirmed_ids tracks = set (map track_id (filter is_confirmed tracks))"

text \<open>
  The tracks the tracker returns for a frame, for the loop variables the frame is processed
  with: what \<^verbatim>\<open>tracks\<close> is bound to in the loop body (empty when a collaborator raises).
\<close>

definition frame_tracks ::
  "('p, 'e, 'ts, 'id) collaborators \<Rightarrow> real \<Rightarrow> ('p, 'ts, 'id) loop_vars \<Rightarrow> ('p, 'id) frame \<Rightarrow>
     'id track list" where
  "frame_tracks C confidence_threshold vs frame =
     (case get_detections frame (predict C) confidence_threshold of
        Inl e \<Rightarrow> []
      | Inr detections \<Rightarrow>
          (case update_tracks C (tracker vs) detections frame of
             Inl e \<Rightarrow> []
           | Inr (tracks, ts) \<Rightarrow> tracks))"

text \<open>
  A contract for the tracker, which is not code of the repository: as long as it has been
  given no detection since it was made (the states \<open>Q\<close>), it reports no confirmed track.
\<close>

definition quiet_tracker :: "('ts \<Rightarrow> bool) \<Rightarrow> ('p, 'e, 'ts, 'id) collaborators \<Rightarrow> bool" where
  "quiet_tracker Q C =
     (Q (initialize_tracker C) \<and>
      (\<forall>ts frame tracks ts1.
         Q ts \<longrightarrow> update_tracks C ts [] frame = Inr (tracks, ts1) \<longrightarrow>
         Q ts1 \<and> (\<forall>tr \<in> set tracks. \<not> is_confirmed tr)))"

text \<open>A contract for the detector: it reports no confidence above 1.\<close>

definition confidences_at_most_one :: "('p, 'e, 'ts, 'id) collaborators \<Rightarrow> bool" where
  "confidences_at_most_one C =
     (\<forall>frame boxes. predict C frame = Inr boxes \<longrightarrow> (\<forall>box \<in> set boxes. box_conf box \<le> 1))"

text \<open>What \<^verbatim>\<open>draw_tracking_info\<close> draws for one confirmed track: its box and its label.\<close>

definition box_and_label :: "'id track \<Rightarrow> 'id drawing list" where
  "box_and_label tr =
     (case to_ltrb tr of
        None \<Rightarrow> []
      | Some (l, t, r, b) \<Rightarrow>
          [Rectangle (py_int l) (py_int t) (py_int r) (py_int b),
           Id_label (track_id tr) (py_int l) (py_int t - 10)])"

text \<open>
  The frame rate \<^verbatim>\<open>process_camera\<close> works with: the reported one, or 30 when the device
  reports 0.
\<close>

definition effective_fps :: "'f video \<Rightarrow> real" where
  "effective_fps v = (if v_fps v = 0 then 30 else v_fps v)"

section \<open>A concrete setting\<close>

text \<open>
  A small world and simple collaborators, on which the properties below are exercised.
  Pictures are numbers. The detector sees one confident person, one dog and one faint
  person in every picture but picture 13, on which it raises. The tracker keeps one track,
  numbered 1, confirmed from the second consecutive frame with a detection on, and has no
  track when there is no detection.
\<close>

definition demo_frame :: "nat \<Rightarrow> (nat, nat) frame" where
  "demo_frame k = \<lparr>pixels = k, drawings = []\<rparr>"

definition demo_clip :: "(nat, nat) frame video" where
  "demo_clip =
     \<lparr>v_opens = True, v_frames = [demo_frame 0, demo_frame 1, demo_frame 2],
      v_width = 640, v_height = 480, v_fps = 25\<rparr>"

definition demo_bad_clip :: "(nat, nat) frame video" where
  "demo_bad_clip =
     \<lparr>v_opens = True, v_frames = [demo_frame 0, demo_frame 13, demo_frame 2],
      v_width = 640, v_height = 480, v_fps = 25\<rparr>"

definition demo_undecodable :: "(nat, nat) frame video" where
  "demo_undecodable =
     \<lparr>v_opens = True, v_frames = [], v_width = 640, v_height = 480, v_fps = 25\<rparr>"

definition demo_camera :: "real \<Rightarrow> nat \<Rightarrow> (nat, nat) frame video" where
  "demo_camera fps n =
     \<lparr>v_opens = True, v_frames = replicate n (demo_frame 0),
      v_width = 640, v_height = 480, v_fps = fps\<rparr>"

text \<open>
  A transcoder that fails with status 1 on a missing input, and otherwise writes a
  decodable copy to the output path: the frames of \<open>demo_bad_clip\<close> for the input
  \<^verbatim>\<open>uploads/worn.avi\<close>, those of \<open>demo_clip\<close> for any other.
\<close>

definition demo_ffmpeg :: "(nat, nat) frame transcoder" where
  "demo_ffmpeg files src dst =
     (case files src of
        None \<Rightarrow> (Exited 1, files)
      | Some v \<Rightarrow>
          (Exited 0,
           files(dst \<mapsto> (if src = ''uploads/worn.avi'' then demo_bad_clip else demo_clip))))"

definition no_ffmpeg :: "(nat, nat) frame transcoder" where
  "no_ffmpeg files src dst = (Binary_missing, files)"

text \<open>A transcoder that exits with status 0 and writes nothing.\<close>

definition idle_ffmpeg :: "(nat, nat) frame transcoder" where
  "idle_ffmpeg files src dst = (Exited 0, files)"

definition demo_boxes :: "raw_box list" where
  "demo_boxes =
     [\<lparr>box_cls = 0, box_conf = 9 / 10, box_xyxy = (10, 20, 110, 220)\<rparr>,
      \<lparr>box_cls = 16, box_conf = 19 / 20, box_xyxy = (300, 40, 380, 90)\<rparr>,
      \<lparr>box_cls = 0, box_conf = 1 / 5, box_xyxy = (200, 20, 260, 200)\<rparr>]"

definition demo_predict :: "(nat, nat) frame \<Rightarrow> string + raw_box list" where
  "demo_predict frame = (if pixels frame = 13 then Inl ''corrupt frame'' else Inr demo_boxes)"

definition demo_update_tracks ::
  "nat \<Rightarrow> detection list \<Rightarrow> (nat, nat) frame \<Rightarrow> string + (nat track list \<times> nat)" where
  "demo_update_tracks hits detections frame =
     (if detections = [] then Inr ([], 0)
      else Inr ([\<lparr>track_id = 1, is_confirmed = (1 \<le> hits),
                  to_ltrb = Some (10, 20, 110, 220)\<rparr>], Suc hits))"

definition demo_collaborators :: "(nat, string, nat, nat) collaborators" where
  "demo_collaborators =
     \<lparr>ffmpeg = demo_ffmpeg, predict = demo_predict, initialize_tracker = 0,
      update_tracks = demo_update_tracks\<rparr>"

definition demo_world :: "(nat, nat) frame world" where
  "demo_world =
     \<lparr>fs = [''uploads/in.mp4'' \<mapsto> demo_clip, ''uploads/old.avi'' \<mapsto> demo_undecodable,
            ''uploads/worn.avi'' \<mapsto> demo_undecodable],
      cameras = [0 \<mapsto> demo_camera 0 200, 1 \<mapsto> demo_camera (15 / 2) 200,
                 2 \<mapsto> demo_camera 30 2],
      ffmpeg_runs = []\<rparr>"

text \<open>
  Two more worlds, each with one camera at index 0. The first reports the double nearest
  to 29.97 frames per second and delivers 3000 frames. The second reports 1 frame per
  second and delivers \<open>2^55 + 3\<close> frames.
\<close>

definition ntsc_world :: "(nat, nat) frame world" where
  "ntsc_world =
     \<lparr>fs = Map.empty,
      cameras = [0 \<mapsto> demo_camera (1054475631502295 / 35184372088832) 3000],
      ffmpeg_runs = []\<rparr>"


text \<open>
  Loop variables in the middle of a run: identity 7 was counted earlier and its track is
  gone; the tracker has seen three frames with a detection in a row.
\<close>

definition demo_vars :: "(nat, nat, nat) loop_vars" where
  "demo_vars =
     \<lparr>unique_ids = {7}, frame_count = 4, tracker = 3,
      out = \<lparr>w_path = ''outputs/out.mp4'', w_fps = 25, w_size = (640, 480), w_frames = [],
             w_released = False\<rparr>\<rparr>"

definition demo_capture :: "(nat, nat) frame capture" where
  "demo_capture = VideoCapture (Some demo_clip)"

section \<open>Properties of the codec repair step\<close>

lemma first_frame_decodes_iff:
  "first_frame_decodes w p =
     (case fs w p of None \<Rightarrow> False | Some v \<Rightarrow> v_opens v \<and> v_frames v \<noteq> [])"
  by (simp add: first_frame_decodes_def cap_read_def VideoCapture_def split: option.split)

text \<open>The two branches of \<^verbatim>\<open>fix_video_codec\<close>, by the outcome of the probe.\<close>

lemma fix_video_codec_probe:
  "fix_video_codec run_ffmpeg w input_path output_path =
     (if first_frame_decodes w input_path then (Inr input_path, w)
      else (let w1 = w\<lparr>ffmpeg_runs := ffmpeg_runs w @ [(input_path, output_path)]\<rparr>
            in case run_ffmpeg (fs w) input_path output_path of
                 (Binary_missing, fs1) \<Rightarrow> (Inl FileNotFoundError, w1)
               | (Exited rc, fs1) \<Rightarrow>
                   if rc \<noteq> 0 then (Inl (CalledProcessError rc), w1\<lparr>fs := fs1\<rparr>)
                   else (Inr output_path, w1\<lparr>fs := fs1\<rparr>)))"
  by (cases "cap_read (VideoCapture (fs w input_path))")
     (simp add: fix_video_codec_def first_frame_decodes_def Let_def)

text \<open>
  Claim C5. On an input whose first frame decodes, \<^verbatim>\<open>fix_video_codec\<close> returns the
  input path itself and leaves the world as it was: no file is created or changed and the
  transcoder is not run. Running it a second time, on the world the first run left, gives
  the same pass-through result.
\<close>

theorem fix_video_codec_pass_through:
  assumes "first_frame_decodes w input_path"
  shows "fix_video_codec run_ffmpeg w input_path output_path = (Inr input_path, w)
       \<and> (case fix_video_codec run_ffmpeg w input_path output_path of
            (r, w1) \<Rightarrow> fix_video_codec run_ffmpeg w1 input_path output_path = (r, w1))"
  using assms by (simp add: fix_video_codec_probe)

text \<open>
  Claim C6. When the first frame of the input does not decode and the transcoder fails,
  with a non-zero exit status or because the binary is missing, \<^verbatim>\<open>fix_video_codec\<close>
  ends with that failure as an exception and returns no path; the transcoder has been
  attempted exactly once.
\<close>

theorem fix_video_codec_transcode_failure:
  assumes "\<not> first_frame_decodes w input_path"
    and "fst (run_ffmpeg (fs w) input_path output_path) \<noteq> Exited 0"
  shows "case fix_video_codec run_ffmpeg w input_path output_path of
           (r, w1) \<Rightarrow>
             r = (case fst (run_ffmpeg (fs w) input_path output_path) of
                    Exited rc \<Rightarrow> Inl (CalledProcessError rc)
                  | Binary_missing \<Rightarrow> Inl FileNotFoundError)
             \<and> (\<forall>p. r \<noteq> Inr p)
             \<and> ffmpeg_runs w1 = ffmpeg_runs w @ [(input_path, output_path)]"
proof (cases "run_ffmpeg (fs w) input_path output_path")
  case (Pair outcome fs1)
  with assms show ?thesis
    by (cases outcome) (simp_all add: fix_video_codec_probe Let_def)
qed

theorem fix_video_codec_pass_through_witness:
  "first_frame_decodes demo_world ''uploads/in.mp4''
   \<and> fix_video_codec demo_ffmpeg demo_world ''uploads/in.mp4'' ''outputs/out_fixed.mp4''
       = (Inr ''uploads/in.mp4'' :: string exn + path, demo_world)"
proof -
  have h: "first_frame_decodes demo_world ''uploads/in.mp4''"
    by (simp add: first_frame_decodes_iff demo_world_def demo_clip_def)
  show ?thesis using h by (simp add: fix_video_codec_pass_through)
qed

theorem fix_video_codec_transcode_failure_witness:
  "\<not> first_frame_decodes demo_world ''uploads/gone.mp4''
   \<and> fst (demo_ffmpeg (fs demo_world) ''uploads/gone.mp4'' ''outputs/out_fixed.mp4'')
       \<noteq> Exited 0
   \<and> fst (fix_video_codec demo_ffmpeg demo_world ''uploads/gone.mp4''
            ''outputs/out_fixed.mp4'') = (Inl (CalledProcessError 1) :: string exn + path)
   \<and> \<not> first_frame_decodes demo_world ''uploads/old.avi''
   \<and> fst (no_ffmpeg (fs demo_world) ''uploads/old.avi'' ''outputs/out_fixed.mp4'')
       \<noteq> Exited 0
   \<and> fst (fix_video_codec no_ffmpeg demo_world ''uploads/old.avi''
            ''outputs/out_fixed.mp4'') = (Inl FileNotFoundError :: string exn + path)"
proof -
  have h1: "\<not> first_frame_decodes demo_world ''uploads/gone.mp4''"
    by (simp add: first_frame_decodes_iff demo_world_def)
  have h2: "fst (demo_ffmpeg (fs demo_world) ''uploads/gone.mp4'' ''outputs/out_fixed.mp4'')
              \<noteq> Exited 0"
    by (simp add: demo_ffmpeg_def demo_world_def)
  have h3: "\<not> first_frame_decodes demo_world ''uploads/old.avi''"
    by (simp add: first_frame_decodes_iff demo_world_def demo_undecodable_def)
  have h4: "fst (no_ffmpeg (fs demo_world) ''uploads/old.avi'' ''outputs/out_fixed.mp4'')
              \<noteq> Exited 0"
    by (simp add: no_ffmpeg_def)
  have a: "fst (fix_video_codec demo_ffmpeg demo_world ''uploads/gone.mp4''
              ''outputs/out_fixed.mp4'') = (Inl (CalledProcessError 1) :: string exn + path)"
    using h1 h2
      fix_video_codec_transcode_failure
        [where w = demo_world and run_ffmpeg = demo_ffmpeg
           and input_path = "''uploads/gone.mp4''"
           and output_path = "''outputs/out_fixed.mp4''" and 'b = string]
    by (simp add: demo_ffmpeg_def demo_world_def split: prod.splits)
  have b: "fst (fix_video_codec no_ffmpeg demo_world ''uploads/old.avi''
              ''outputs/out_fixed.mp4'') = (Inl FileNotFoundError :: string exn + path)"
    using h3 h4
      fix_video_codec_transcode_failure
        [where w = demo_world and run_ffmpeg = no_ffmpeg
           and input_path = "''uploads/old.avi''"
           and output_path = "''outputs/out_fixed.mp4''" and 'b = string]
    by (simp add: no_ffmpeg_def split: prod.splits)
  show ?thesis using h1 h2 h3 h4 a b by simp
qed

section \<open>Reasoning about the two loops\<close>

text \<open>
  The loop equations unfold for ever as rewrite rules; they are used explicitly. What is
  proved about a loop is proved through one rule per loop: an invariant \<open>I\<close> of the capture
  and the loop variables that holds at the start and that a pass through the body keeps,
  and a postcondition \<open>P\<close> that follows from the invariant at each exit of the loop, by
  a failed read, by an exception or (for the camera) by the bound.
\<close>

declare video_loop.simps [simp del] camera_loop.simps [simp del]

lemma video_loop_rule:
  assumes run: "video_loop C t cap vs = (eo, cap1, vs1)"
    and init: "I cap vs"
    and ok: "\<And>cap vs frame cap2 vs2.
      I cap vs \<Longrightarrow> cap_read cap = (Some frame, cap2) \<Longrightarrow> frame_body C t vs frame = Inr vs2
      \<Longrightarrow> I cap2 vs2"
    and bad: "\<And>cap vs frame cap2 e vs2.
      I cap vs \<Longrightarrow> cap_read cap = (Some frame, cap2) \<Longrightarrow> frame_body C t vs frame = Inl (e, vs2)
      \<Longrightarrow> P (Some e) cap2 vs2"
    and stop: "\<And>cap vs cap2. I cap vs \<Longrightarrow> cap_read cap = (None, cap2) \<Longrightarrow> P None cap2 vs"
  shows "P eo cap1 vs1"
  using run init ok bad stop
proof (induction C t cap vs rule: video_loop.induct)
  case (1 C t cap vs)
  note ok = "1.prems"(3) and bad = "1.prems"(4) and stop = "1.prems"(5)
  obtain ret cap2 where r: "cap_read cap = (ret, cap2)" by (cases "cap_read cap") auto
  show ?case
  proof (cases ret)
    case None
    then have "video_loop C t cap vs = (None, cap2, vs)"
      using r by (simp add: video_loop.simps)
    with "1.prems"(1,2) stop [of cap vs cap2] r None show ?thesis by simp
  next
    case (Some frame)
    show ?thesis
    proof (cases "frame_body C t vs frame")
      case (Inl a)
      obtain e vs2 where a: "a = (e, vs2)" by (cases a) auto
      have "video_loop C t cap vs = (Some e, cap2, vs2)"
        using r Some Inl a by (simp add: video_loop.simps)
      with "1.prems"(1,2) bad [of cap vs frame cap2 e vs2] r Some Inl a show ?thesis by simp
    next
      case (Inr vs2)
      have i2: "I cap2 vs2" using ok [of cap vs frame cap2 vs2] "1.prems"(2) r Some Inr by simp
      have run2: "video_loop C t cap2 vs2 = (eo, cap1, vs1)"
        using "1.prems"(1) r Some Inr by (simp add: video_loop.simps)
      show ?thesis
        by (rule "1.IH" [OF r [symmetric] Some Inr run2 i2 ok bad stop])
    qed
  qed
qed

lemma camera_loop_rule:
  assumes run: "camera_loop C t m cap vs = (eo, cap1, vs1)"
    and init: "I cap vs"
    and ok: "\<And>cap vs frame cap2 vs2.
      I cap vs \<Longrightarrow> frame_count vs < m \<Longrightarrow> cap_read cap = (Some frame, cap2) \<Longrightarrow>
      frame_body C t vs frame = Inr vs2 \<Longrightarrow> I cap2 vs2"
    and bad: "\<And>cap vs frame cap2 e vs2.
      I cap vs \<Longrightarrow> frame_count vs < m \<Longrightarrow> cap_read cap = (Some frame, cap2) \<Longrightarrow>
      frame_body C t vs frame = Inl (e, vs2) \<Longrightarrow> P (Some e) cap2 vs2"
    and stop: "\<And>cap vs cap2.
      I cap vs \<Longrightarrow> frame_count vs < m \<Longrightarrow> cap_read cap = (None, cap2) \<Longrightarrow> P None cap2 vs"
    and bound: "\<And>cap vs. I cap vs \<Longrightarrow> \<not> frame_count vs < m \<Longrightarrow> P None cap vs"
  shows "P eo cap1 vs1"
  using run init ok bad stop bound
proof (induction C t m cap vs rule: camera_loop.induct)
  case (1 C t m cap vs)
  note ok = "1.prems"(3) and bad = "1.prems"(4) and stop = "1.prems"(5)
    and bound = "1.prems"(6)
  show ?case
  proof (cases "frame_count vs < m")
    case False
    then have "camera_loop C t m cap vs = (None, cap, vs)"
      by (simp add: camera_loop.simps)
    with "1.prems"(1,2) bound [of cap vs] False show ?thesis by simp
  next
    case True
    obtain ret cap2 where r: "cap_read cap = (ret, cap2)" by (cases "cap_read cap") auto
    show ?thesis
    proof (cases ret)
      case None
      then have "camera_loop C t m cap vs = (None, cap2, vs)"
        using r True by (simp add: camera_loop.simps)
      with "1.prems"(1,2) stop [of cap vs cap2] r None True show ?thesis by simp
    next
      case (Some frame)
      show ?thesis
      proof (cases "frame_body C t vs frame")
        case (Inl a)
        obtain e vs2 where a: "a = (e, vs2)" by (cases a) auto
        have "camera_loop C t m cap vs = (Some e, cap2, vs2)"
          using r Some Inl a True by (simp add: camera_loop.simps)
        with "1.prems"(1,2) bad [of cap vs frame cap2 e vs2] r Some Inl a True
        show ?thesis by simp
      next
        case (Inr vs2)
        have i2: "I cap2 vs2"
          using ok [of cap vs frame cap2 vs2] "1.prems"(2) r Some Inr True by simp
        have run2: "camera_loop C t m cap2 vs2 = (eo, cap1, vs1)"
          using "1.prems"(1) r Some Inr True by (simp add: camera_loop.simps)
        show ?thesis
          by (rule "1.IH" [OF True r [symmetric] Some Inr run2 i2 ok bad stop bound])
      qed
    qed
  qed
qed

text \<open>The special case of a property that holds at every exit because it is invariant.\<close>

lemma video_loop_invariant:
  assumes run: "video_loop C t cap vs = (eo, cap1, vs1)"
    and init: "I cap vs"
    and ok: "\<And>cap vs frame cap2 vs2.
      I cap vs \<Longrightarrow> cap_read cap = (Some frame, cap2) \<Longrightarrow> frame_body C t vs frame = Inr vs2
      \<Longrightarrow> I cap2 vs2"
    and bad: "\<And>cap vs frame cap2 e vs2.
      I cap vs \<Longrightarrow> cap_read cap = (Some frame, cap2) \<Longrightarrow> frame_body C t vs frame = Inl (e, vs2)
      \<Longrightarrow> I cap2 vs2"
    and stop: "\<And>cap vs cap2. I cap vs \<Longrightarrow> cap_read cap = (None, cap2) \<Longrightarrow> I cap2 vs"
  shows "I cap1 vs1"
  by (rule video_loop_rule [where I = I and P = "\<lambda>eo. I", OF run init ok bad stop])

lemma camera_loop_invariant:
  assumes run: "camera_loop C t m cap vs = (eo, cap1, vs1)"
    and init: "I cap vs"
    and ok: "\<And>cap vs frame cap2 vs2.
      I cap vs \<Longrightarrow> frame_count vs < m \<Longrightarrow> cap_read cap = (Some frame, cap2) \<Longrightarrow>
      frame_body C t vs frame = Inr vs2 \<Longrightarrow> I cap2 vs2"
    and bad: "\<And>cap vs frame cap2 e vs2.
      I cap vs \<Longrightarrow> frame_count vs < m \<Longrightarrow> cap_read cap = (Some frame, cap2) \<Longrightarrow>
      frame_body C t vs frame = Inl (e, vs2) \<Longrightarrow> I cap2 vs2"
    and stop: "\<And>cap vs cap2.
      I cap vs \<Longrightarrow> frame_count vs < m \<Longrightarrow> cap_read cap = (None, cap2) \<Longrightarrow> I cap2 vs"
  shows "I cap1 vs1"
  by (rule camera_loop_rule [where I = I and P = "\<lambda>eo. I", OF run init ok bad stop])

section \<open>The loop body, the detector adapter and the annotator in closed form\<close>

lemma collect_detections_filter:
  "collect_detections boxes t ds =
     ds @ map as_detection (filter (\<lambda>box. py_int (box_cls box) = 0 \<and> t < box_conf box) boxes)"
  by (induction boxes arbitrary: ds)
     (auto simp: as_detection_def Let_def split: prod.splits)

lemma add_confirmed_eq: "add_confirmed tracks U = U \<union> confirmed_ids tracks"
  by (induction tracks arbitrary: U) (auto simp: confirmed_ids_def)

lemma add_confirmed_filter:
  "add_confirmed tracks U = add_confirmed (filter is_confirmed tracks) U"
  by (induction tracks arbitrary: U) auto

lemma draw_tracks_filter:
  "draw_tracks tracks frame A = draw_tracks (filter is_confirmed tracks) frame A"
  by (induction tracks frame A rule: draw_tracks.induct)
     (auto simp: Let_def split: option.splits prod.splits)

lemma draw_tracks_active:
  "snd (draw_tracks tracks frame A) = A \<union> confirmed_ids tracks"
  by (induction tracks frame A rule: draw_tracks.induct)
     (auto simp: Let_def confirmed_ids_def split: option.splits prod.splits)


lemma frame_body_frame_count:
  assumes "frame_body C t vs frame = Inr vs1"
  shows "frame_count vs1 = frame_count vs + 1"
  using assms
  by (auto simp: frame_body_def Let_def split: sum.splits prod.splits)

lemma frame_body_out:
  assumes "frame_body C t vs frame = Inr vs1"
  shows "out vs1 = writer_write (out vs)
           (fst (draw_tracking_info frame (frame_tracks C t vs frame) {} (unique_ids vs1)))"
  using assms
  by (auto simp: frame_body_def frame_tracks_def Let_def add_confirmed_eq
           split: sum.splits prod.splits)

lemma frame_body_Inl:
  assumes "frame_body C t vs frame = Inl (e, vs1)"
  shows "vs1 = vs\<lparr>frame_count := frame_count vs + 1\<rparr>"
  using assms
  by (auto simp: frame_body_def Let_def split: sum.splits prod.splits)

lemma draw_tracks_drawings:
  "fst (draw_tracks tracks frame A) =
     frame\<lparr>drawings := drawings frame @ concat (map box_and_label (filter is_confirmed tracks))\<rparr>"
  by (induction tracks frame A rule: draw_tracks.induct)
     (auto simp: Let_def draw_def box_and_label_def split: option.splits prod.splits)

lemma draw_tracking_info_eq:
  "draw_tracking_info frame tracks A U =
     (frame\<lparr>drawings := drawings frame @ concat (map box_and_label (filter is_confirmed tracks))
          @ [People_count (card (A \<union> confirmed_ids tracks)), Total_unique (card U)]\<rparr>,
      A \<union> confirmed_ids tracks)"
proof -
  obtain f1 A1 where d: "draw_tracks tracks frame A = (f1, A1)"
    by (cases "draw_tracks tracks frame A") auto
  have "f1 = frame\<lparr>drawings := drawings frame
                @ concat (map box_and_label (filter is_confirmed tracks))\<rparr>"
    using draw_tracks_drawings [of tracks frame A] d by simp
  moreover have "A1 = A \<union> confirmed_ids tracks"
    using draw_tracks_active [of tracks frame A] d by simp
  ultimately show ?thesis
    by (simp add: draw_tracking_info_def d draw_def Let_def)
qed


section \<open>Properties of float rounding\<close>

lemma pow2_pos [simp]: "0 < pow2 k"
  by (simp add: pow2_def)

lemma pow2_nonzero [simp]: "pow2 k \<noteq> 0"
  using pow2_pos [of k] by linarith

lemma pow2_abs [simp]: "\<bar>pow2 k\<bar> = pow2 k"
  by (rule abs_of_pos) (rule pow2_pos)

lemma pow2_add: "pow2 (a + b) = pow2 a * pow2 b"
proof -
  have "pow2 k = 2 powr real_of_int k" for k
    by (auto simp: pow2_def powr_realpow [symmetric] powr_minus divide_inverse)
  then show ?thesis by (simp add: powr_add)
qed

lemma pow2_powr: "pow2 k = 2 powr real_of_int k"
  by (auto simp: pow2_def powr_realpow [symmetric] powr_minus divide_inverse)

lemma pow2_mono: "a \<le> b \<Longrightarrow> pow2 a \<le> pow2 b"
  by (simp add: pow2_powr)

lemma pow2_less_iff: "pow2 a < pow2 b \<longleftrightarrow> a < b"
  by (simp add: pow2_powr)

lemma pow2_le_iff: "pow2 a \<le> pow2 b \<longleftrightarrow> a \<le> b"
  by (simp add: pow2_powr)

lemma pow2_nat: "0 \<le> k \<Longrightarrow> pow2 k = 2 ^ nat k"
  by (simp add: pow2_def)

lemma pow2_0: "pow2 0 = 1"
  by (simp add: pow2_def)

lemma pow2_53: "pow2 53 = 2 ^ 53"
  by (simp add: pow2_def)


lemma below_pow2_53:
  assumes "\<bar>x\<bar> \<le> 2 ^ 53"
  shows "\<bar>x\<bar> < pow2 1024"
proof -
  have "pow2 53 < pow2 1024" by (simp only: pow2_less_iff)
  then show ?thesis using assms by (simp only: pow2_53)
qed

lemma round_even_of_int: "round_even (real_of_int n) = n"
  by (simp add: round_even_def)

lemma round_even_bounds: "\<lfloor>y\<rfloor> \<le> round_even y \<and> round_even y \<le> \<lceil>y\<rceil>"
proof -
  have "y - real_of_int \<lfloor>y\<rfloor> \<noteq> 0 \<Longrightarrow> \<lfloor>y\<rfloor> + 1 \<le> \<lceil>y\<rceil>"
    by (simp add: ceiling_altdef)
  then show ?thesis
    by (auto simp: round_even_def Let_def)
qed

lemma round_even_ge: "real_of_int a \<le> y \<Longrightarrow> a \<le> round_even y"
  using round_even_bounds [of y] le_floor_iff [of a y] by linarith


lemma expo_bounds:
  assumes "0 < x"
  shows "pow2 (expo x) \<le> x \<and> x < pow2 (expo x + 1)"
proof (cases "1 \<le> x")
  case True
  then have f: "0 < \<lfloor>x\<rfloor>" by simp
  have b1: "1 \<le> bitlen \<lfloor>x\<rfloor>" using f by (simp add: bitlen_alt_def)
  have "2 ^ nat (bitlen \<lfloor>x\<rfloor> - 1) \<le> \<lfloor>x\<rfloor>" "\<lfloor>x\<rfloor> < 2 ^ nat (bitlen \<lfloor>x\<rfloor>)"
    using bitlen_bounds [OF f] by simp_all
  then have lo: "(2 :: real) ^ nat (bitlen \<lfloor>x\<rfloor> - 1) \<le> x"
    and hi: "x < 2 ^ nat (bitlen \<lfloor>x\<rfloor>)"
    by (simp_all add: le_floor_iff floor_less_iff)
  show ?thesis using True lo hi b1 by (simp add: expo_def pow2_def)
next
  case False
  define y where "y = 1 / x"
  have y: "1 < y" using assms False by (simp add: y_def)
  define n where "n = \<lceil>y\<rceil> - 1"
  have n: "0 < n" using y by (simp add: n_def)
  have ny: "real_of_int n < y" "y \<le> real_of_int n + 1"
    unfolding n_def by linarith+
  have b1: "1 \<le> bitlen n" using n by (simp add: bitlen_alt_def)
  have i1: "2 ^ nat (bitlen n - 1) \<le> n" and i2: "n + 1 \<le> 2 ^ nat (bitlen n)"
    using bitlen_bounds [OF n] by simp_all
  have "real_of_int (2 ^ nat (bitlen n - 1)) \<le> real_of_int n"
    using i1 by (simp only: of_int_le_iff)
  moreover have "real_of_int (n + 1) \<le> real_of_int (2 ^ nat (bitlen n))"
    using i2 by (simp only: of_int_le_iff)
  ultimately have "(2 :: real) ^ nat (bitlen n - 1) \<le> real_of_int n"
    and "real_of_int n + 1 \<le> 2 ^ nat (bitlen n)"
    by simp_all
  then have lo: "(2 :: real) ^ nat (bitlen n - 1) < y" and hi: "y \<le> 2 ^ nat (bitlen n)"
    using ny by linarith+
  have e: "expo x = - bitlen n" using False by (simp add: expo_def n_def y_def)
  have x: "x = 1 / y" using assms by (simp add: y_def)
  have p1: "pow2 (- bitlen n) = 1 / 2 ^ nat (bitlen n)"
    using b1 by (simp add: pow2_def)
  have p2: "pow2 (- bitlen n + 1) = 1 / 2 ^ nat (bitlen n - 1)"
    using b1 by (auto simp: pow2_def nat_diff_distrib)
  have "1 / 2 ^ nat (bitlen n) \<le> 1 / y" using hi y by (simp add: frac_le)
  moreover have "1 / y < 1 / 2 ^ nat (bitlen n - 1)"
    using lo y by (simp add: frac_less2)
  ultimately have "pow2 (- bitlen n) \<le> 1 / y \<and> 1 / y < pow2 (- bitlen n + 1)"
    by (simp only: p1 p2)
  then show ?thesis unfolding e x [symmetric] .
qed

lemma expo_less:
  assumes "0 < x" "x < pow2 k"
  shows "expo x < k"
proof -
  have "pow2 (expo x) < pow2 k" using expo_bounds [OF assms(1)] assms(2) by linarith
  then show ?thesis by (simp add: pow2_less_iff)
qed

lemma expo_unique:
  assumes "pow2 e \<le> x" "x < pow2 (e + 1)"
  shows "expo x = e"
proof -
  have pos: "0 < x" using assms(1) pow2_pos [of e] by linarith
  have "pow2 (expo x) < pow2 (e + 1)" "pow2 e < pow2 (expo x + 1)"
    using expo_bounds [OF pos] assms by linarith+
  then show ?thesis by (simp add: pow2_less_iff)
qed

text \<open>The quantum of a number below \<open>2 ^ 53\<close> is a negative power of two.\<close>

lemma to_double_grid:
  assumes x: "x \<noteq> 0" and k: "\<bar>x\<bar> < pow2 (k + 53)" "- 1074 \<le> k"
  obtains j where "to_double x =
      (if \<bar>pow2 (k - int j) * real_of_int (round_even (x * 2 ^ j / pow2 k))\<bar> < pow2 1024
       then Finite (pow2 (k - int j) * real_of_int (round_even (x * 2 ^ j / pow2 k)))
       else if 0 < x then Plus_inf else Minus_inf)"
proof -
  define e where "e = max (expo \<bar>x\<bar>) (- 1022)"
  have "expo \<bar>x\<bar> < k + 53" using expo_less [of "\<bar>x\<bar>" "k + 53"] x k(1) by simp
  then have le: "e - 52 \<le> k" using k(2) by (simp add: e_def)
  define j where "j = nat (k - (e - 52))"
  have q: "pow2 (e - 52) = pow2 (k - int j)" using le by (simp add: j_def)
  have "pow2 k = pow2 (k - int j) * pow2 (int j)"
    using pow2_add [of "k - int j" "int j"] by simp
  then have "pow2 k = pow2 (k - int j) * 2 ^ j" by (simp add: pow2_def)
  then have d: "x / pow2 (k - int j) = x * 2 ^ j / pow2 k"
    using pow2_pos [of "k - int j"] by (simp add: field_simps)
  have "to_double x =
      (if \<bar>pow2 (k - int j) * real_of_int (round_even (x * 2 ^ j / pow2 k))\<bar> < pow2 1024
       then Finite (pow2 (k - int j) * real_of_int (round_even (x * 2 ^ j / pow2 k)))
       else if 0 < x then Plus_inf else Minus_inf)"
    using x unfolding to_double_def Let_def e_def [symmetric] q d by simp
  then show thesis by (rule that)
qed

lemma to_double_exact:
  assumes m: "x = real_of_int m * pow2 k" "\<bar>m\<bar> < 2 ^ 53" and k: "- 1074 \<le> k"
    and r: "\<bar>x\<bar> < pow2 1024"
  shows "to_double x = Finite x"
proof (cases "x = 0")
  case True
  then show ?thesis by (simp add: to_double_def)
next
  case False
  have "real_of_int \<bar>m\<bar> < 2 ^ 53" using m(2) by (metis of_int_less_iff of_int_numeral of_int_power)
  then have "\<bar>real_of_int m\<bar> * pow2 k < 2 ^ 53 * pow2 k"
    using pow2_pos [of k] by (simp only: mult_less_cancel_right_pos)
  moreover have "\<bar>pow2 k\<bar> = pow2 k" by (rule abs_of_pos) (rule pow2_pos)
  then have "\<bar>x\<bar> = \<bar>real_of_int m\<bar> * pow2 k"
    by (simp add: m(1) abs_mult)
  ultimately have "\<bar>x\<bar> < 2 ^ 53 * pow2 k" by simp
  also have "\<dots> = pow2 (k + 53)" using pow2_add [of k 53] by (simp add: pow2_53)
  finally have b: "\<bar>x\<bar> < pow2 (k + 53)" .
  obtain j where j: "to_double x =
      (if \<bar>pow2 (k - int j) * real_of_int (round_even (x * 2 ^ j / pow2 k))\<bar> < pow2 1024
       then Finite (pow2 (k - int j) * real_of_int (round_even (x * 2 ^ j / pow2 k)))
       else if 0 < x then Plus_inf else Minus_inf)"
    using to_double_grid [OF False b k] by blast
  have "x * 2 ^ j / pow2 k = real_of_int (m * 2 ^ j)"
    using m(1) pow2_pos [of k] by simp
  then have re: "real_of_int (round_even (x * 2 ^ j / pow2 k)) = x * 2 ^ j / pow2 k"
    by (simp only: round_even_of_int)
  have "pow2 k = pow2 (k - int j) * pow2 (int j)"
    using pow2_add [of "k - int j" "int j"] by simp
  then have "pow2 k = pow2 (k - int j) * 2 ^ j" by (simp add: pow2_def)
  then have "pow2 (k - int j) * (x * 2 ^ j / pow2 k) = x"
    using pow2_pos [of "k - int j"] by (simp add: field_simps)
  then show ?thesis using j r by (simp only: re) simp
qed

lemma of_int_abs_le_53:
  assumes "\<bar>n\<bar> \<le> 2 ^ 53"
  shows "\<bar>real_of_int n\<bar> \<le> 2 ^ 53"
proof -
  have "real_of_int \<bar>n\<bar> \<le> real_of_int (2 ^ 53)"
    using assms by (simp only: of_int_le_iff)
  then show ?thesis by simp
qed

lemma to_double_of_int:
  assumes "\<bar>n\<bar> \<le> 2 ^ 53"
  shows "to_double (real_of_int n) = Finite (real_of_int n)"
proof -
  have big: "\<bar>real_of_int n\<bar> < pow2 1024"
    using of_int_abs_le_53 [OF assms] by (rule below_pow2_53)
  show ?thesis
  proof (cases "\<bar>n\<bar> < 2 ^ 53")
    case True
    show ?thesis
      by (rule to_double_exact [where m = n and k = 0]) (use True big in \<open>simp_all add: pow2_0\<close>)
  next
    case False
    then have n: "\<bar>n\<bar> = 2 ^ 53" using assms by simp
    then have "n = 2 ^ 53 \<or> n = - (2 ^ 53)" by linarith
    then obtain m where m: "n = m * 2" "\<bar>m\<bar> < 2 ^ 53"
      by (auto intro: that [of "2 ^ 52"] that [of "- (2 ^ 52)"])
    have "pow2 1 = 2" by (simp add: pow2_def)
    then show ?thesis
      by (intro to_double_exact [where m = m and k = 1]) (use m big in simp_all)
  qed
qed


lemma to_double_nonneg:
  assumes "0 \<le> x"
  shows "to_double x \<noteq> Minus_inf \<and> (\<forall>r. to_double x = Finite r \<longrightarrow> 0 \<le> r)"
proof (cases "x = 0")
  case True
  then show ?thesis by (simp add: to_double_def)
next
  case False
  then have pos: "0 < x" using assms by simp
  have "0 \<le> q * real_of_int (round_even (x / q))" if "0 < q" for q
    using round_even_ge [of 0 "x / q"] pos that by simp
  then show ?thesis
    using pos by (auto simp: to_double_def Let_def)
qed

lemma to_double_eval:
  assumes "pow2 e \<le> \<bar>x\<bar>" "\<bar>x\<bar> < pow2 (e + 1)" "- 1022 \<le> e"
    and "r = pow2 (e - 52) * real_of_int (round_even (x / pow2 (e - 52)))"
    and "\<bar>r\<bar> \<le> 2 ^ 53"
  shows "to_double x = Finite r"
proof -
  have "0 < \<bar>x\<bar>" using assms(1) pow2_pos [of e] by linarith
  then have nz: "x \<noteq> 0" by simp
  have "expo \<bar>x\<bar> = e" using assms(1,2) by (rule expo_unique)
  then have "max (expo \<bar>x\<bar>) (- 1022) = e" using assms(3) by simp
  then show ?thesis
    using nz below_pow2_53 [OF assms(5)] unfolding to_double_def Let_def assms(4) by simp
qed

lemma float_of_int_small: "\<bar>n\<bar> \<le> 2 ^ 53 \<Longrightarrow> float_of_int n = Some (real_of_int n)"
  by (simp add: float_of_int_def to_double_of_int)

lemma double_2997: "to_double (2997 / 100) = Finite (1054475631502295 / 35184372088832)"
  by (rule to_double_eval [where e = 4]) (simp_all add: pow2_def round_even_def)

lemma int_of_product_5_30: "int_of_product 5 30 = Some 150"
proof -
  have "to_double (5 * 30) = Finite (real_of_int 150)"
    using to_double_of_int [of 150] by simp
  then show ?thesis
    by (simp add: int_of_product_def float_of_int_small float_mul_def int_of_float_def py_int_def)
qed

lemma int_of_product_5_7_5: "int_of_product 5 (15 / 2) = Some 37"
proof -
  have "to_double (75 / 2) = Finite (75 / 2)"
    by (rule to_double_exact [where m = 75 and k = "- 1"])
       (simp_all add: pow2_def below_pow2_53)
  then show ?thesis
    by (simp add: int_of_product_def float_of_int_small float_mul_def int_of_float_def py_int_def)
qed

lemma int_of_product_100_2997:
  "int_of_product 100 (1054475631502295 / 35184372088832) = Some 2997"
proof -
  have "to_double (100 * (1054475631502295 / 35184372088832)) = Finite 2997"
    by (rule to_double_eval [where e = 11]) (simp_all add: pow2_def round_even_def)
  then show ?thesis
    by (simp add: int_of_product_def float_of_int_small float_mul_def int_of_float_def py_int_def)
qed

lemma to_double_Finite_nonneg: "0 \<le> x \<Longrightarrow> to_double x = Finite r \<Longrightarrow> 0 \<le> r"
  using to_double_nonneg [of x] by blast

lemma float_of_int_Some: "float_of_int n = Some a \<longleftrightarrow> to_double (real_of_int n) = Finite a"
  by (cases "to_double (real_of_int n)") (simp_all add: float_of_int_def)

lemma int_of_float_Some: "int_of_float d = Some m \<longleftrightarrow> (\<exists>r. d = Finite r \<and> m = py_int r)"
  by (cases d) (auto simp: int_of_float_def)

lemma int_of_product_Some:
  "int_of_product n x = Some m \<longleftrightarrow>
     (\<exists>a r. to_double (real_of_int n) = Finite a \<and> to_double (a * x) = Finite r \<and> m = py_int r)"
  unfolding int_of_product_def float_mul_def
  by (cases "float_of_int n") (simp_all add: float_of_int_Some [symmetric] int_of_float_Some)


lemma int_of_product_nonneg:
  assumes "int_of_product d fps = Some m" "0 \<le> d" "0 \<le> fps"
  shows "0 \<le> m"
proof -
  obtain a r where a: "to_double (real_of_int d) = Finite a"
    and r: "to_double (a * fps) = Finite r" and m: "m = py_int r"
    using assms(1) unfolding int_of_product_Some by blast
  have "0 \<le> real_of_int d" using assms(2) by simp
  then have "0 \<le> a" using a by (rule to_double_Finite_nonneg)
  then have "0 \<le> a * fps" using assms(3) by simp
  then have "0 \<le> r" using r by (rule to_double_Finite_nonneg)
  then show ?thesis unfolding m py_int_def by simp
qed

lemma float_div_150_30: "float_div 150 30 = Finite 5"
  using to_double_of_int [of 5] by (simp add: float_div_def)

lemma float_div_37_7_5:
  "float_div 37 (15 / 2) = Finite (1388609885105903 / 281474976710656)"
  unfolding float_div_def
  by (rule to_double_eval [where e = 2]) (simp_all add: pow2_def round_even_def)

lemma float_div_2997:
  "float_div 2997 (1054475631502295 / 35184372088832) = Finite 100"
  unfolding float_div_def
  by (rule to_double_eval [where e = 6]) (simp_all add: pow2_def round_even_def)





section \<open>The ways a run can end\<close>

lemma process_video_cases:
  fixes C :: "('p, 'e, 'ts, 'id) collaborators"
  assumes run: "process_video C w input_path output_path t = (res, ex)"
  obtains
    (transcode_failed) e w1 where
      "fix_video_codec (ffmpeg C) w input_path (replace_mp4 output_path) = (Inl e, w1)"
      "res = Inl e" "ex = \<lparr>world = w1, source = None, sink = None, ids = {}\<rparr>"
  | (open_failed) video_path w1 where
      "fix_video_codec (ffmpeg C) w input_path (replace_mp4 output_path) = (Inr video_path :: 'e exn + path, w1)"
      "\<not> cap_opened (VideoCapture (fs w1 video_path))"
      "res = Inl Failed_to_open_video_file"
      "ex = \<lparr>world = w1, source = Some (VideoCapture (fs w1 video_path)), sink = None,
             ids = {}\<rparr>"
  | (raised) video_path w1 out0 w2 e cap1 vs where
      "fix_video_codec (ffmpeg C) w input_path (replace_mp4 output_path) = (Inr video_path :: 'e exn + path, w1)"
      "cap_opened (VideoCapture (fs w1 video_path))"
      "VideoWriter w1 output_path (cap_fps (VideoCapture (fs w1 video_path)))
         (py_int (cap_width (VideoCapture (fs w1 video_path))),
          py_int (cap_height (VideoCapture (fs w1 video_path)))) = (out0, w2)"
      "video_loop C t (VideoCapture (fs w1 video_path))
         \<lparr>unique_ids = {}, frame_count = 0, tracker = initialize_tracker C, out = out0\<rparr>
         = (Some e, cap1, vs)"
      "res = Inl (Raised e)"
      "ex = \<lparr>world = w2, source = Some cap1, sink = Some (out vs), ids = unique_ids vs\<rparr>"
  | (returned) video_path w1 out0 w2 cap1 vs out1 w3 where
      "fix_video_codec (ffmpeg C) w input_path (replace_mp4 output_path) = (Inr video_path :: 'e exn + path, w1)"
      "cap_opened (VideoCapture (fs w1 video_path))"
      "VideoWriter w1 output_path (cap_fps (VideoCapture (fs w1 video_path)))
         (py_int (cap_width (VideoCapture (fs w1 video_path))),
          py_int (cap_height (VideoCapture (fs w1 video_path)))) = (out0, w2)"
      "video_loop C t (VideoCapture (fs w1 video_path))
         \<lparr>unique_ids = {}, frame_count = 0, tracker = initialize_tracker C, out = out0\<rparr>
         = (None, cap1, vs)"
      "writer_release (out vs) w2 = (out1, w3)"
      "res = Inr \<lparr>total_unique_people = int (card (unique_ids vs)),
                  total_frames = frame_count vs\<rparr>"
      "ex = \<lparr>world = (if video_path \<noteq> input_path \<and> fs w3 video_path \<noteq> None
                      then w3\<lparr>fs := (fs w3)(video_path := None)\<rparr> else w3),
             source = Some (cap_release cap1), sink = Some out1, ids = unique_ids vs\<rparr>"
proof -
  obtain fx w1 where f:
    "fix_video_codec (ffmpeg C) w input_path (replace_mp4 output_path)
       = (fx :: 'e exn + path, w1)"
    by (cases "fix_video_codec (ffmpeg C) w input_path (replace_mp4 output_path)
          :: ('e exn + path) \<times> _") auto
  show thesis
  proof (cases fx)
    case (Inl e)
    with f run show thesis
      by (intro transcode_failed [of e w1]) (auto simp: process_video_def Let_def)
  next
    case (Inr video_path)
    show thesis
    proof (cases "cap_opened (VideoCapture (fs w1 video_path))")
      case False
      with f Inr run show thesis
        by (intro open_failed [of video_path w1]) (auto simp: process_video_def Let_def)
    next
      case True
      obtain out0 w2 where vw:
        "VideoWriter w1 output_path (cap_fps (VideoCapture (fs w1 video_path)))
           (py_int (cap_width (VideoCapture (fs w1 video_path))),
            py_int (cap_height (VideoCapture (fs w1 video_path)))) = (out0, w2)"
        by (cases "VideoWriter w1 output_path (cap_fps (VideoCapture (fs w1 video_path)))
           (py_int (cap_width (VideoCapture (fs w1 video_path))),
            py_int (cap_height (VideoCapture (fs w1 video_path))))") auto
      obtain eo cap1 vs where lp:
        "video_loop C t (VideoCapture (fs w1 video_path))
           \<lparr>unique_ids = {}, frame_count = 0, tracker = initialize_tracker C, out = out0\<rparr>
           = (eo, cap1, vs)"
        by (cases "video_loop C t (VideoCapture (fs w1 video_path))
           \<lparr>unique_ids = {}, frame_count = 0, tracker = initialize_tracker C, out = out0\<rparr>") auto
      show thesis
      proof (cases eo)
        case (Some e)
        with f Inr True vw lp run show thesis
          by (intro raised [of video_path w1 out0 w2 e cap1 vs])
             (auto simp: process_video_def Let_def)
      next
        case None
        obtain out1 w3 where wr: "writer_release (out vs) w2 = (out1, w3)"
          by (cases "writer_release (out vs) w2") auto
        from f Inr True vw lp run None wr show thesis
          by (intro returned [of video_path w1 out0 w2 cap1 vs out1 w3])
             (auto simp: process_video_def Let_def)
      qed
    qed
  qed
qed

lemma process_camera_cases:
  fixes C :: "('p, 'e, 'ts, 'id) collaborators"
  assumes run: "process_camera C w camera_index output_path duration t = (res, ex)"
  obtains
    (open_failed)
      "\<not> cap_opened (VideoCapture (cameras w camera_index))"
      "res = Inl (Failed_to_open_camera camera_index)"
      "ex = \<lparr>world = w, source = Some (VideoCapture (cameras w camera_index)), sink = None,
             ids = {}\<rparr>"
  | (bound_overflow) v out0 w1 where
      "cameras w camera_index = Some v" "v_opens v"
      "VideoWriter w output_path (effective_fps v) (py_int (v_width v), py_int (v_height v))
         = (out0, w1)"
      "int_of_product duration (effective_fps v) = None"
      "res = Inl OverflowError"
      "ex = \<lparr>world = w1, source = Some (VideoCapture (Some v)), sink = Some out0, ids = {}\<rparr>"
  | (raised) v out0 w1 e cap1 vs m where
      "cameras w camera_index = Some v" "v_opens v"
      "VideoWriter w output_path (effective_fps v) (py_int (v_width v), py_int (v_height v))
         = (out0, w1)"
      "camera_loop C t m (VideoCapture (Some v))
         \<lparr>unique_ids = {}, frame_count = 0, tracker = initialize_tracker C, out = out0\<rparr>
         = (Some e, cap1, vs)"
      "res = Inl (Raised e)"
      "ex = \<lparr>world = w1, source = Some cap1, sink = Some (out vs), ids = unique_ids vs\<rparr>"
      "int_of_product duration (effective_fps v) = Some m"
  | (count_overflow) v out0 w1 cap1 vs out1 w2 m where
      "cameras w camera_index = Some v" "v_opens v"
      "VideoWriter w output_path (effective_fps v) (py_int (v_width v), py_int (v_height v))
         = (out0, w1)"
      "camera_loop C t m (VideoCapture (Some v))
         \<lparr>unique_ids = {}, frame_count = 0, tracker = initialize_tracker C, out = out0\<rparr>
         = (None, cap1, vs)"
      "writer_release (out vs) w1 = (out1, w2)"
      "res = Inl OverflowError"
      "ex = \<lparr>world = w2, source = Some (cap_release cap1), sink = Some out1,
             ids = unique_ids vs\<rparr>"
      "int_of_product duration (effective_fps v) = Some m"
      "float_of_int (frame_count vs) = None"
  | (returned) v out0 w1 cap1 vs out1 w2 m count where
      "cameras w camera_index = Some v" "v_opens v"
      "VideoWriter w output_path (effective_fps v) (py_int (v_width v), py_int (v_height v))
         = (out0, w1)"
      "camera_loop C t m (VideoCapture (Some v))
         \<lparr>unique_ids = {}, frame_count = 0, tracker = initialize_tracker C, out = out0\<rparr>
         = (None, cap1, vs)"
      "writer_release (out vs) w1 = (out1, w2)"
      "res = Inr \<lparr>total_unique_people = int (card (unique_ids vs)),
                  total_frames = frame_count vs,
                  duration_seconds = float_div count (effective_fps v)\<rparr>"
      "ex = \<lparr>world = w2, source = Some (cap_release cap1), sink = Some out1,
             ids = unique_ids vs\<rparr>"
      "int_of_product duration (effective_fps v) = Some m"
      "float_of_int (frame_count vs) = Some count"
proof (cases "cap_opened (VideoCapture (cameras w camera_index))")
  case False
  with run show thesis
    by (intro open_failed) (auto simp: process_camera_def Let_def)
next
  case True
  then obtain v where v: "cameras w camera_index = Some v" "v_opens v"
    by (cases "cameras w camera_index") (auto simp: VideoCapture_def split: if_splits)
  have props: "cap_fps (VideoCapture (Some v)) = v_fps v"
    "cap_width (VideoCapture (Some v)) = v_width v"
    "cap_height (VideoCapture (Some v)) = v_height v"
    using v by (simp_all add: VideoCapture_def)
  obtain out0 w1 where vw:
    "VideoWriter w output_path (effective_fps v) (py_int (v_width v), py_int (v_height v))
       = (out0, w1)"
    by (cases "VideoWriter w output_path (effective_fps v)
       (py_int (v_width v), py_int (v_height v))") auto
  show thesis
  proof (cases "int_of_product duration (effective_fps v)")
    case None
    with True v props vw run show thesis
      by (intro bound_overflow [of v out0 w1])
         (auto simp: process_camera_def Let_def effective_fps_def)
  next
    case (Some m)
    note bound = Some
    obtain eo cap1 vs where lp:
      "camera_loop C t m (VideoCapture (Some v))
         \<lparr>unique_ids = {}, frame_count = 0, tracker = initialize_tracker C, out = out0\<rparr>
         = (eo, cap1, vs)"
      by (cases "camera_loop C t m (VideoCapture (Some v))
         \<lparr>unique_ids = {}, frame_count = 0, tracker = initialize_tracker C, out = out0\<rparr>") auto
    show thesis
    proof (cases eo)
      case (Some e)
      with True v props vw lp run bound show thesis
        by (intro raised [of v out0 w1 m e cap1 vs])
           (auto simp: process_camera_def Let_def effective_fps_def)
    next
      case None
      note ended = None
      obtain out1 w2 where wr: "writer_release (out vs) w1 = (out1, w2)"
        by (cases "writer_release (out vs) w1") auto
      show thesis
      proof (cases "float_of_int (frame_count vs)")
        case None
        with True v props vw lp run bound ended wr show thesis
          by (intro count_overflow [of v out0 w1 m cap1 vs out1 w2])
             (auto simp: process_camera_def Let_def effective_fps_def)
      next
        case (Some count)
        with True v props vw lp run bound ended wr show thesis
          by (intro returned [of v out0 w1 m cap1 vs out1 w2 count])
             (auto simp: process_camera_def Let_def effective_fps_def)
      qed
    qed
  qed
qed

section \<open>Runs in the concrete setting\<close>

lemmas demo_defs = demo_collaborators_def demo_world_def demo_clip_def demo_bad_clip_def
  demo_undecodable_def demo_camera_def demo_ffmpeg_def no_ffmpeg_def idle_ffmpeg_def
  demo_boxes_def
  demo_predict_def demo_update_tracks_def demo_frame_def demo_vars_def demo_capture_def

lemmas run_defs = process_video_def process_camera_def fix_video_codec_def VideoCapture_def
  cap_read_def cap_release_def VideoWriter_def writer_write_def writer_release_def
  frame_body_def get_detections_def draw_tracking_info_def draw_def py_int_def Let_def







section \<open>The set of unique identities\<close>





section \<open>The confidence threshold\<close>

lemma get_detections_filter:
  "get_detections frame model t =
     (case model frame of
        Inl e \<Rightarrow> Inl e
      | Inr boxes \<Rightarrow>
          Inr (map as_detection
                 (filter (\<lambda>box. py_int (box_cls box) = 0 \<and> t < box_conf box) boxes)))"
  by (simp add: get_detections_def collect_detections_filter split: sum.splits)

lemma frame_body_quiet:
  assumes q: "quiet_tracker Q C" and conf: "confidences_at_most_one C"
    and Q: "Q (tracker vs)" and U: "unique_ids vs = {}"
    and body: "frame_body C 1 vs frame = Inr vs1"
  shows "Q (tracker vs1) \<and> unique_ids vs1 = {}"
proof -
  obtain boxes where p: "predict C frame = Inr boxes"
    using body by (cases "predict C frame") (auto simp: frame_body_def get_detections_def Let_def)
  have "filter (\<lambda>box. py_int (box_cls box) = 0 \<and> 1 < box_conf box) boxes = []"
    using p conf by (fastforce simp: confidences_at_most_one_def filter_empty_conv)
  then have d: "get_detections frame (predict C) 1 = Inr []"
    using p by (simp add: get_detections_filter)
  obtain tracks ts where u: "update_tracks C (tracker vs) [] frame = Inr (tracks, ts)"
    using body d
    by (cases "update_tracks C (tracker vs) [] frame") (auto simp: frame_body_def Let_def)
  have n: "Q ts \<and> (\<forall>tr \<in> set tracks. \<not> is_confirmed tr)"
    using q Q u unfolding quiet_tracker_def by blast
  have "tracker vs1 = ts" "unique_ids vs1 = add_confirmed tracks (unique_ids vs)"
    using body d u by (auto simp: frame_body_def Let_def)
  then show ?thesis using U n by (auto simp: add_confirmed_eq confirmed_ids_def)
qed

lemma video_loop_quiet:
  assumes "video_loop C 1 cap vs = (eo, cap1, vs1)"
    and "quiet_tracker Q C" and "confidences_at_most_one C"
    and "Q (tracker vs)" and "unique_ids vs = {}"
  shows "unique_ids vs1 = {}"
proof -
  have "Q (tracker vs1) \<and> unique_ids vs1 = {}"
  proof (rule video_loop_invariant
      [where I = "\<lambda>c v. Q (tracker v) \<and> unique_ids v = {}", OF assms(1)])
    fix c v frame c2 v2
    assume "Q (tracker v) \<and> unique_ids v = {}" "frame_body C 1 v frame = Inr v2"
    then show "Q (tracker v2) \<and> unique_ids v2 = {}"
      using frame_body_quiet [OF assms(2,3)] by blast
  next
    fix c v frame c2 e v2
    assume "Q (tracker v) \<and> unique_ids v = {}" "frame_body C 1 v frame = Inl (e, v2)"
    then show "Q (tracker v2) \<and> unique_ids v2 = {}"
      using frame_body_Inl by fastforce
  qed (use assms in simp_all)
  then show ?thesis by simp
qed

lemma camera_loop_quiet:
  assumes "camera_loop C 1 m cap vs = (eo, cap1, vs1)"
    and "quiet_tracker Q C" and "confidences_at_most_one C"
    and "Q (tracker vs)" and "unique_ids vs = {}"
  shows "unique_ids vs1 = {}"
proof -
  have "Q (tracker vs1) \<and> unique_ids vs1 = {}"
  proof (rule camera_loop_invariant
      [where I = "\<lambda>c v. Q (tracker v) \<and> unique_ids v = {}", OF assms(1)])
    fix c v frame c2 v2
    assume "Q (tracker v) \<and> unique_ids v = {}" "frame_body C 1 v frame = Inr v2"
    then show "Q (tracker v2) \<and> unique_ids v2 = {}"
      using frame_body_quiet [OF assms(2,3)] by blast
  next
    fix c v frame c2 e v2
    assume "Q (tracker v) \<and> unique_ids v = {}" "frame_body C 1 v frame = Inl (e, v2)"
    then show "Q (tracker v2) \<and> unique_ids v2 = {}"
      using frame_body_Inl by fastforce
  qed (use assms in simp_all)
  then show ?thesis by simp
qed

text \<open>
  Claim C2. \<^verbatim>\<open>get_detections\<close> retains exactly the boxes of the model whose class index
  is 0 (person) and whose confidence is strictly greater than the threshold, in the order
  of the model, each as the tuple of \<open>as_detection\<close>; a box whose confidence is at most
  the threshold, in particular equal to it, is dropped. With the threshold 1, a detector
  whose confidences never exceed 1 and a tracker that reports no confirmed track as long as
  it has been given no detection, every run that returns, of \<^verbatim>\<open>process_video\<close> or of
  \<^verbatim>\<open>process_camera\<close>, returns \<^verbatim>\<open>total_unique_people = 0\<close>.
\<close>

theorem get_detections_exclusive_threshold:
  fixes C :: "('p, 'e, 'ts, 'id) collaborators"
  shows
  "(model frame = Inr boxes \<longrightarrow>
      get_detections frame model t =
        Inr (map as_detection
               (filter (\<lambda>box. py_int (box_cls box) = 0 \<and> t < box_conf box) boxes)))
   \<and> (model frame = Inr boxes \<and> (\<forall>box \<in> set boxes. box_conf box \<le> t) \<longrightarrow>
      get_detections frame model t = Inr [])
   \<and> (quiet_tracker Q C \<and> confidences_at_most_one C \<longrightarrow>
        (process_video C w input_path output_path 1 = (Inr r, ex) \<longrightarrow>
           total_unique_people r = 0)
      \<and> (process_camera C w camera_index output_path duration 1 = (Inr rc, exc) \<longrightarrow>
           total_unique_people rc = 0))"
proof (intro conjI impI)
  assume "model frame = Inr boxes"
  then show "get_detections frame model t =
      Inr (map as_detection
             (filter (\<lambda>box. py_int (box_cls box) = 0 \<and> t < box_conf box) boxes))"
    by (simp add: get_detections_filter)
next
  assume a: "model frame = Inr boxes \<and> (\<forall>box \<in> set boxes. box_conf box \<le> t)"
  then have "filter (\<lambda>box. py_int (box_cls box) = 0 \<and> t < box_conf box) boxes = []"
    by (fastforce simp: filter_empty_conv)
  with a show "get_detections frame model t = Inr []"
    by (simp add: get_detections_filter)
next
  assume q: "quiet_tracker Q C \<and> confidences_at_most_one C"
    and run: "process_video C w input_path output_path 1 = (Inr r, ex)"
  from run show "total_unique_people r = 0"
  proof (cases rule: process_video_cases)
    case (returned video_path w1 out0 w2 cap1 vs out1 w3)
    have "unique_ids vs = {}"
      using video_loop_quiet [OF returned(4), of Q] q
      by (simp add: quiet_tracker_def)
    with returned(6) show ?thesis by simp
  qed simp_all
next
  assume q: "quiet_tracker Q C \<and> confidences_at_most_one C"
    and run: "process_camera C w camera_index output_path duration 1 = (Inr rc, exc)"
  from run show "total_unique_people rc = 0"
  proof (cases rule: process_camera_cases)
    case (returned v out0 w1 cap1 vs out1 w2)
    have "unique_ids vs = {}"
      using camera_loop_quiet [OF returned(4), of Q] q
      by (simp add: quiet_tracker_def)
    with returned(6) show ?thesis by simp
  qed simp_all
qed

lemma demo_quiet_tracker: "quiet_tracker (\<lambda>hits. hits = 0) demo_collaborators"
  by (simp add: quiet_tracker_def demo_collaborators_def demo_update_tracks_def)

lemma demo_confidences: "confidences_at_most_one demo_collaborators"
  by (auto simp: confidences_at_most_one_def demo_collaborators_def demo_predict_def
        demo_boxes_def split: if_splits)

lemma demo_process_video_run_at_one:
  "\<exists>r ex. process_video demo_collaborators demo_world ''uploads/in.mp4'' ''outputs/out.mp4'' 1
      = (Inr r, ex)"
  by (simp add: demo_defs run_defs video_loop.simps)

lemma demo_process_camera_run_at_one:
  "\<exists>r ex. process_camera demo_collaborators demo_world 2 ''outputs/out.mp4'' 5 1
      = (Inr r, ex)"
  by (simp add: demo_defs run_defs camera_loop.simps int_of_product_5_30 float_of_int_small)

theorem get_detections_exclusive_threshold_witness:
  "demo_predict (demo_frame 0) = Inr demo_boxes
   \<and> get_detections (demo_frame 0) demo_predict (1 / 5)
       = Inr [([10, 20, 100, 200], 9 / 10, ''person'')]
   \<and> list_all (\<lambda>box. box_conf box \<le> 19 / 20) demo_boxes
   \<and> get_detections (demo_frame 0) demo_predict (19 / 20) = Inr []
   \<and> quiet_tracker (\<lambda>hits. hits = 0) demo_collaborators
   \<and> confidences_at_most_one demo_collaborators
   \<and> (\<exists>r ex. process_video demo_collaborators demo_world ''uploads/in.mp4''
          ''outputs/out.mp4'' 1 = (Inr r, ex) \<and> total_unique_people r = 0)
   \<and> (\<exists>r ex. process_camera demo_collaborators demo_world 2 ''outputs/out.mp4'' 5 1
          = (Inr r, ex) \<and> total_unique_people r = 0)"
proof -
  have p: "demo_predict (demo_frame 0) = Inr demo_boxes"
    by (simp add: demo_predict_def demo_frame_def)
  have le: "\<forall>box \<in> set demo_boxes. box_conf box \<le> 19 / 20"
    by (simp add: demo_boxes_def)
  obtain r ex where pv:
    "process_video demo_collaborators demo_world ''uploads/in.mp4'' ''outputs/out.mp4'' 1
       = (Inr r, ex)"
    using demo_process_video_run_at_one by blast
  obtain rc exc where pc:
    "process_camera demo_collaborators demo_world 2 ''outputs/out.mp4'' 5 1 = (Inr rc, exc)"
    using demo_process_camera_run_at_one by blast
  note low = get_detections_exclusive_threshold
    [where model = demo_predict and frame = "demo_frame 0" and boxes = demo_boxes
       and t = "1 / 5" and Q = "\<lambda>hits. hits = 0" and C = demo_collaborators
       and w = demo_world and input_path = "''uploads/in.mp4''"
       and output_path = "''outputs/out.mp4''" and camera_index = 2 and duration = 5
       and r = r and ex = ex and rc = rc and exc = exc]
  note high = get_detections_exclusive_threshold
    [where model = demo_predict and frame = "demo_frame 0" and boxes = demo_boxes
       and t = "19 / 20" and Q = "\<lambda>hits. hits = 0" and C = demo_collaborators
       and w = demo_world and input_path = "''uploads/in.mp4''"
       and output_path = "''outputs/out.mp4''" and camera_index = 2 and duration = 5
       and r = r and ex = ex and rc = rc and exc = exc]
  have a: "get_detections (demo_frame 0) demo_predict (1 / 5)
      = Inr [([10, 20, 100, 200], 9 / 10, ''person'')]"
    using low p by (simp add: demo_boxes_def as_detection_def py_int_def)
  have b: "get_detections (demo_frame 0) demo_predict (19 / 20) = Inr []"
    using high p le by blast
  have c: "total_unique_people r = 0" "total_unique_people rc = 0"
    using low pv pc demo_quiet_tracker demo_confidences by blast+
  have le': "list_all (\<lambda>box. box_conf box \<le> 19 / 20) demo_boxes"
    using le by (simp add: list_all_iff)
  show ?thesis
    using p a le' b demo_quiet_tracker demo_confidences pv pc c by blast
qed

section \<open>Which tracks are drawn\<close>

text \<open>
  Claim C9, as amended. The loop body hands the unfiltered track list to
  \<^verbatim>\<open>draw_tracking_info\<close>, but \<^verbatim>\<open>draw_tracking_info\<close> itself skips every unconfirmed
  track: what it returns for a track list is what it returns for the confirmed tracks of
  the list alone, as the counting loop does. It draws the box and the label of each
  confirmed track that has a box, then the two counters, and nothing else; when no track
  is confirmed it draws the two counters only.
\<close>

theorem draw_tracking_info_confirmed_only:
  "draw_tracking_info frame tracks active_ids seen =
     draw_tracking_info frame (filter is_confirmed tracks) active_ids seen
   \<and> add_confirmed tracks seen = add_confirmed (filter is_confirmed tracks) seen
   \<and> drawings (fst (draw_tracking_info frame tracks active_ids seen)) =
       drawings frame @ concat (map box_and_label (filter is_confirmed tracks))
         @ [People_count (card (active_ids \<union> confirmed_ids tracks)), Total_unique (card seen)]
   \<and> ((\<forall>tr \<in> set tracks. \<not> is_confirmed tr) \<longrightarrow>
        drawings (fst (draw_tracking_info frame tracks active_ids seen)) =
          drawings frame @ [People_count (card active_ids), Total_unique (card seen)])"
proof (intro conjI impI)
  show "draw_tracking_info frame tracks active_ids seen =
     draw_tracking_info frame (filter is_confirmed tracks) active_ids seen"
    by (simp add: draw_tracking_info_eq confirmed_ids_def)
  show "add_confirmed tracks seen = add_confirmed (filter is_confirmed tracks) seen"
    by (rule add_confirmed_filter)
  show "drawings (fst (draw_tracking_info frame tracks active_ids seen)) =
       drawings frame @ concat (map box_and_label (filter is_confirmed tracks))
         @ [People_count (card (active_ids \<union> confirmed_ids tracks)), Total_unique (card seen)]"
    by (simp add: draw_tracking_info_eq)
next
  assume "\<forall>tr \<in> set tracks. \<not> is_confirmed tr"
  then have "filter is_confirmed tracks = []"
    by (simp add: filter_empty_conv)
  then show "drawings (fst (draw_tracking_info frame tracks active_ids seen)) =
          drawings frame @ [People_count (card active_ids), Total_unique (card seen)]"
    by (simp add: draw_tracking_info_eq confirmed_ids_def)
qed

text \<open>
  The claim as stated fails: an unconfirmed track with a box gets neither box nor label,
  and no frame and track list exist on which the unconfirmed tracks change what
  \<^verbatim>\<open>draw_tracking_info\<close> does.
\<close>

theorem unconfirmed_track_drawn_counterexample:
  "drawings (fst (draw_tracking_info (demo_frame 0)
       [\<lparr>track_id = 1, is_confirmed = False, to_ltrb = Some (10, 20, 110, 220)\<rparr>] {} {}))
     = [People_count 0, Total_unique 0]
   \<and> \<not> (\<exists>(frame :: (nat, nat) frame) tracks active_ids seen.
          draw_tracking_info frame tracks active_ids seen
            \<noteq> draw_tracking_info frame (filter is_confirmed tracks) active_ids seen)"
  by (simp add: draw_tracking_info_eq confirmed_ids_def demo_frame_def)

theorem draw_tracking_info_confirmed_only_witness:
  "list_all (\<lambda>tr. \<not> is_confirmed tr)
       [\<lparr>track_id = 1 :: nat, is_confirmed = False, to_ltrb = Some (10, 20, 110, 220)\<rparr>]
   \<and> drawings (fst (draw_tracking_info (demo_frame 0)
         [\<lparr>track_id = 1, is_confirmed = False, to_ltrb = Some (10, 20, 110, 220)\<rparr>] {2} {2}))
       = [People_count 1, Total_unique 1]
   \<and> drawings (fst (draw_tracking_info (demo_frame 0)
         [\<lparr>track_id = 1, is_confirmed = False, to_ltrb = Some (10, 20, 110, 220)\<rparr>,
          \<lparr>track_id = 2, is_confirmed = True, to_ltrb = Some (30, 40, 50, 60)\<rparr>] {} {2}))
       = [Rectangle 30 40 50 60, Id_label 2 30 30, People_count 1, Total_unique 1]"
proof -
  have none: "\<forall>tr \<in> set [\<lparr>track_id = 1 :: nat, is_confirmed = False,
      to_ltrb = Some (10, 20, 110, 220)\<rparr>]. \<not> is_confirmed tr"
    by simp
  have one: "drawings (fst (draw_tracking_info (demo_frame 0)
         [\<lparr>track_id = 1, is_confirmed = False, to_ltrb = Some (10, 20, 110, 220)\<rparr>] {2} {2}))
       = drawings (demo_frame 0) @ [People_count (card {2 :: nat}), Total_unique (card {2 :: nat})]"
    using none
      draw_tracking_info_confirmed_only
        [where frame = "demo_frame 0" and active_ids = "{2 :: nat}" and seen = "{2 :: nat}"
           and tracks = "[\<lparr>track_id = 1, is_confirmed = False,
                           to_ltrb = Some (10, 20, 110, 220)\<rparr>]"]
    by blast
  have two: "drawings (fst (draw_tracking_info (demo_frame 0)
         [\<lparr>track_id = 1, is_confirmed = False, to_ltrb = Some (10, 20, 110, 220)\<rparr>,
          \<lparr>track_id = 2, is_confirmed = True, to_ltrb = Some (30, 40, 50, 60)\<rparr>] {} {2}))
       = drawings (demo_frame 0)
         @ concat (map box_and_label (filter is_confirmed
             [\<lparr>track_id = 1 :: nat, is_confirmed = False, to_ltrb = Some (10, 20, 110, 220)\<rparr>,
              \<lparr>track_id = 2, is_confirmed = True, to_ltrb = Some (30, 40, 50, 60)\<rparr>]))
         @ [People_count (card ({} \<union> confirmed_ids
             [\<lparr>track_id = 1 :: nat, is_confirmed = False, to_ltrb = Some (10, 20, 110, 220)\<rparr>,
              \<lparr>track_id = 2, is_confirmed = True, to_ltrb = Some (30, 40, 50, 60)\<rparr>])),
            Total_unique (card {2 :: nat})]"
    using draw_tracking_info_confirmed_only
        [where frame = "demo_frame 0" and active_ids = "{} :: nat set" and seen = "{2 :: nat}"
           and tracks = "[\<lparr>track_id = 1, is_confirmed = False,
                           to_ltrb = Some (10, 20, 110, 220)\<rparr>,
                         \<lparr>track_id = 2, is_confirmed = True,
                           to_ltrb = Some (30, 40, 50, 60)\<rparr>]"]
    by blast
  show ?thesis
    using one two
    by (simp add: demo_frame_def box_and_label_def confirmed_ids_def py_int_def)
qed

section \<open>The people count drawn on a frame\<close>




section \<open>Counting frames\<close>

lemma cap_read_Some:
  assumes "cap_read cap = (Some frame, cap2)"
  shows "cap_opened cap \<and> \<not> cap_released cap \<and> cap_pos cap < length (cap_frames cap)
       \<and> cap2 = cap\<lparr>cap_pos := Suc (cap_pos cap)\<rparr>"
  using assms by (auto simp: cap_read_def split: if_splits)

lemma cap_read_None:
  assumes "cap_read cap = (None, cap2)"
  shows "cap2 = cap \<and> (cap_opened cap \<and> \<not> cap_released cap \<longrightarrow> length (cap_frames cap) \<le> cap_pos cap)"
  using assms by (auto simp: cap_read_def split: if_splits)


lemma camera_loop_count:
  assumes run: "camera_loop C t m cap vs = (eo, cap1, vs1)"
    and start: "frame_count vs = int (cap_pos cap)" "cap_pos cap \<le> length (cap_frames cap)"
      "cap_opened cap" "\<not> cap_released cap" "frame_count vs \<le> max m 0"
  shows "frame_count vs1 = int (cap_pos cap1) \<and> cap_frames cap1 = cap_frames cap
       \<and> cap_opened cap1 \<and> \<not> cap_released cap1
       \<and> cap_pos cap1 \<le> length (cap_frames cap) \<and> frame_count vs1 \<le> max m 0
       \<and> (eo = None \<longrightarrow> m \<le> frame_count vs1 \<or> cap_pos cap1 = length (cap_frames cap))"
proof (rule camera_loop_rule
    [where I = "\<lambda>c v. frame_count v = int (cap_pos c) \<and> cap_frames c = cap_frames cap
                  \<and> cap_opened c \<and> \<not> cap_released c \<and> cap_pos c \<le> length (cap_frames cap)
                  \<and> frame_count v \<le> max m 0"
       and P = "\<lambda>eo c v. frame_count v = int (cap_pos c) \<and> cap_frames c = cap_frames cap
                  \<and> cap_opened c \<and> \<not> cap_released c \<and> cap_pos c \<le> length (cap_frames cap)
                  \<and> frame_count v \<le> max m 0
                  \<and> (eo = None \<longrightarrow> m \<le> frame_count v \<or> cap_pos c = length (cap_frames cap))",
       OF run])
  show "frame_count vs = int (cap_pos cap) \<and> cap_frames cap = cap_frames cap
      \<and> cap_opened cap \<and> \<not> cap_released cap \<and> cap_pos cap \<le> length (cap_frames cap)
      \<and> frame_count vs \<le> max m 0"
    using start by simp
next
  fix c v frame c2 v2
  assume i: "frame_count v = int (cap_pos c) \<and> cap_frames c = cap_frames cap
      \<and> cap_opened c \<and> \<not> cap_released c \<and> cap_pos c \<le> length (cap_frames cap)
      \<and> frame_count v \<le> max m 0"
    and lt: "frame_count v < m"
    and r: "cap_read c = (Some frame, c2)" and b: "frame_body C t v frame = Inr v2"
  show "frame_count v2 = int (cap_pos c2) \<and> cap_frames c2 = cap_frames cap
      \<and> cap_opened c2 \<and> \<not> cap_released c2 \<and> cap_pos c2 \<le> length (cap_frames cap)
      \<and> frame_count v2 \<le> max m 0"
    using i lt cap_read_Some [OF r] frame_body_frame_count [OF b] by auto
next
  fix c v frame c2 e v2
  assume i: "frame_count v = int (cap_pos c) \<and> cap_frames c = cap_frames cap
      \<and> cap_opened c \<and> \<not> cap_released c \<and> cap_pos c \<le> length (cap_frames cap)
      \<and> frame_count v \<le> max m 0"
    and lt: "frame_count v < m"
    and r: "cap_read c = (Some frame, c2)" and b: "frame_body C t v frame = Inl (e, v2)"
  show "frame_count v2 = int (cap_pos c2) \<and> cap_frames c2 = cap_frames cap
      \<and> cap_opened c2 \<and> \<not> cap_released c2 \<and> cap_pos c2 \<le> length (cap_frames cap)
      \<and> frame_count v2 \<le> max m 0
      \<and> (Some e = None \<longrightarrow> m \<le> frame_count v2 \<or> cap_pos c2 = length (cap_frames cap))"
    using i lt cap_read_Some [OF r] frame_body_Inl [OF b] by auto
next
  fix c v c2
  assume i: "frame_count v = int (cap_pos c) \<and> cap_frames c = cap_frames cap
      \<and> cap_opened c \<and> \<not> cap_released c \<and> cap_pos c \<le> length (cap_frames cap)
      \<and> frame_count v \<le> max m 0"
    and r: "cap_read c = (None, c2)"
  show "frame_count v = int (cap_pos c2) \<and> cap_frames c2 = cap_frames cap
      \<and> cap_opened c2 \<and> \<not> cap_released c2 \<and> cap_pos c2 \<le> length (cap_frames cap)
      \<and> frame_count v \<le> max m 0
      \<and> (None = None \<longrightarrow> m \<le> frame_count v \<or> cap_pos c2 = length (cap_frames cap))"
    using i cap_read_None [OF r] by auto
next
  fix c v
  assume i: "frame_count v = int (cap_pos c) \<and> cap_frames c = cap_frames cap
      \<and> cap_opened c \<and> \<not> cap_released c \<and> cap_pos c \<le> length (cap_frames cap)
      \<and> frame_count v \<le> max m 0"
    and ge: "\<not> frame_count v < m"
  show "frame_count v = int (cap_pos c) \<and> cap_frames c = cap_frames cap
      \<and> cap_opened c \<and> \<not> cap_released c \<and> cap_pos c \<le> length (cap_frames cap)
      \<and> frame_count v \<le> max m 0
      \<and> (None = None \<longrightarrow> m \<le> frame_count v \<or> cap_pos c = length (cap_frames cap))"
    using i ge by auto
qed

lemma camera_loop_total:
  assumes run: "camera_loop C t m (VideoCapture (Some v))
      \<lparr>unique_ids = {}, frame_count = 0, tracker = ts, out = out0\<rparr> = (None, cap1, vs1)"
    and "v_opens v"
  shows "frame_count vs1 = min (max m 0) (int (length (v_frames v)))
       \<and> frame_count vs1 = int (cap_pos cap1)"
proof -
  have "frame_count vs1 = int (cap_pos cap1)
      \<and> cap_pos cap1 \<le> length (v_frames v) \<and> frame_count vs1 \<le> max m 0
      \<and> (m \<le> frame_count vs1 \<or> cap_pos cap1 = length (v_frames v))"
    using camera_loop_count [OF run] assms(2) by (auto simp: VideoCapture_def)
  then show ?thesis by auto
qed

lemma process_camera_total:
  fixes C :: "('p, 'e, 'ts, 'id) collaborators"
  assumes run: "process_camera C w camera_index output_path duration t = (Inr rc, exc)"
    and v: "cameras w camera_index = Some v"
  shows "map_option (\<lambda>m. min (max m 0) (int (length (v_frames v))))
        (int_of_product duration (effective_fps v)) = Some (total_frames rc)
    \<and> map_option (\<lambda>count. float_div count (effective_fps v))
        (float_of_int (total_frames rc)) = Some (duration_seconds rc)
    \<and> map_option (\<lambda>c. int (cap_pos c)) (source exc) = Some (total_frames rc)"
  using run
proof (cases rule: process_camera_cases)
  case (returned v' out0 w1 cap1 vs out1 w2 m count)
  have same: "v' = v" using returned(1) v by simp
  show ?thesis
    using camera_loop_total [OF returned(4) returned(2)] returned(6,7,8,9) same
    by (simp add: cap_release_def)
qed simp_all

lemma py_int_floor: "0 \<le> x \<Longrightarrow> py_int x = \<lfloor>x\<rfloor>"
  by (simp add: py_int_def)

section \<open>The stop condition of the camera loop\<close>

lemma frame_body_no_raise:
  assumes "predict C frame = Inr boxes"
    and "\<And>ts ds. \<exists>r. update_tracks C ts ds frame = Inr r"
  shows "\<exists>vs1. frame_body C t vs frame = Inr vs1"
proof -
  obtain r where "update_tracks C (tracker vs)
      (collect_detections boxes t []) frame = Inr r"
    using assms(2) by blast
  then show ?thesis
    using assms(1) by (cases r) (simp add: frame_body_def get_detections_def Let_def)
qed

lemma camera_loop_no_raise:
  assumes run: "camera_loop C t m cap vs = (eo, cap1, vs1)"
    and det: "\<And>frame. frame \<in> set (cap_frames cap) \<Longrightarrow> \<exists>boxes. predict C frame = Inr boxes"
    and upd: "\<And>ts ds frame. \<exists>r. update_tracks C ts ds frame = Inr r"
  shows "eo = None"
proof (rule camera_loop_rule
    [where I = "\<lambda>c v. cap_frames c = cap_frames cap" and P = "\<lambda>eo c v. eo = None", OF run])
  fix c v frame c2 e v2
  assume i: "cap_frames c = cap_frames cap"
    and r: "cap_read c = (Some frame, c2)" and b: "frame_body C t v frame = Inl (e, v2)"
  have "frame \<in> set (cap_frames cap)"
    using i r by (auto simp: cap_read_def split: if_splits)
  then obtain boxes where "predict C frame = Inr boxes" using det by blast
  then have "\<exists>vs1. frame_body C t v frame = Inr vs1"
    using upd by (intro frame_body_no_raise) auto
  with b show "Some e = None" by simp
next
  fix c v frame c2 v2
  assume "cap_frames c = cap_frames cap" "cap_read c = (Some frame, c2)"
  then show "cap_frames c2 = cap_frames cap"
    by (auto simp: cap_read_def split: if_splits)
qed simp_all

lemma demo_camera_run:
  assumes cam: "cameras w i = Some (demo_camera fps n)"
    and bound: "int_of_product d (effective_fps (demo_camera fps n)) = Some m"
    and small: "int n \<le> 2 ^ 53"
  shows "\<exists>r ex. process_camera demo_collaborators w i output_path d t = (Inr r, ex)"
proof -
  obtain res ex where run:
    "process_camera demo_collaborators w i output_path d t = (res, ex)"
    by (cases "process_camera demo_collaborators w i output_path d t") auto
  from run show ?thesis
  proof (cases rule: process_camera_cases)
    case open_failed
    then show ?thesis
      by (simp add: cam demo_camera_def VideoCapture_def)
  next
    case (bound_overflow v out0 w1)
    then show ?thesis using cam bound by simp
  next
    case (raised v out0 w1 e cap1 vs)
    have v: "v = demo_camera fps n" using raised(1) cam by simp
    have "Some e = None"
    proof (rule camera_loop_no_raise [OF raised(4)])
      fix frame
      assume "frame \<in> set (cap_frames (VideoCapture (Some v)))"
      then have "frame = demo_frame 0"
        by (auto simp: v demo_camera_def VideoCapture_def)
      then show "\<exists>boxes. predict demo_collaborators frame = Inr boxes"
        by (simp add: demo_collaborators_def demo_predict_def demo_frame_def)
    next
      fix ts ds frame
      show "\<exists>r. update_tracks demo_collaborators ts ds frame = Inr r"
        by (simp add: demo_collaborators_def demo_update_tracks_def)
    qed
    then show ?thesis by simp
  next
    case (count_overflow v out0 w1 cap1 vs out1 w2 m')
    have v: "v = demo_camera fps n" using count_overflow(1) cam by simp
    have "frame_count vs = min (max m' 0) (int (length (v_frames v)))"
      using camera_loop_total [OF count_overflow(4) count_overflow(2)] by simp
    then have "0 \<le> frame_count vs" "frame_count vs \<le> int n"
      by (simp_all add: v demo_camera_def)
    then have "\<bar>frame_count vs\<bar> \<le> 2 ^ 53" using small by simp
    then show ?thesis using count_overflow(9) by (simp add: float_of_int_small)
  next
    case (returned v out0 w1 cap1 vs out1 w2)
    with run show ?thesis by blast
  qed
qed

lemma demo_camera_length: "length (v_frames (demo_camera fps n)) = n"
  by (simp add: demo_camera_def)

lemma demo_camera_fps: "effective_fps (demo_camera fps n) = (if fps = 0 then 30 else fps)"
  by (simp add: demo_camera_def effective_fps_def)

text \<open>
  Claim C3, as amended. In camera mode the loop stops as soon as the frame count reaches
  \<^verbatim>\<open>max_frames = int(duration_seconds * fps)\<close>: the product as the machine computes it
  in double precision, truncated to an integer, where \<^verbatim>\<open>fps\<close> is the frame rate the
  device reports, or 30 when it reports 0; it stops earlier when a read fails. So a run
  that returns has read as many frames as the smaller of that bound (0 if the bound is
  negative) and the number of frames the device delivers, and its \<^verbatim>\<open>duration_seconds\<close> is
  the float quotient of the frame count by that frame rate. With a duration of 5 and a
  device reporting 0, the loop stops at frame 150, or earlier on a read failure.
\<close>

theorem camera_loop_stops_at_truncated_bound:
  fixes C :: "('p, 'e, 'ts, 'id) collaborators"
  shows
  "process_camera C w camera_index output_path duration t = (Inr rc, exc)
     \<and> cameras w camera_index = Some v \<longrightarrow>
   map_option (\<lambda>max_frames. min (max max_frames 0) (int (length (v_frames v))))
     (int_of_product duration (effective_fps v)) = Some (total_frames rc)
   \<and> effective_fps v = (if v_fps v = 0 then 30 else v_fps v)
   \<and> map_option (\<lambda>count. float_div count (effective_fps v))
       (float_of_int (total_frames rc)) = Some (duration_seconds rc)
   \<and> (duration = 5 \<and> v_fps v = 0 \<longrightarrow>
        total_frames rc = min 150 (int (length (v_frames v)))
        \<and> duration_seconds rc = float_div (real_of_int (total_frames rc)) 30)"
proof
  assume a: "process_camera C w camera_index output_path duration t = (Inr rc, exc)
     \<and> cameras w camera_index = Some v"
  then have run: "process_camera C w camera_index output_path duration t = (Inr rc, exc)"
    and v: "cameras w camera_index = Some v" by simp_all
  have main: "map_option (\<lambda>max_frames. min (max max_frames 0) (int (length (v_frames v))))
       (int_of_product duration (effective_fps v)) = Some (total_frames rc)"
    and quot: "map_option (\<lambda>count. float_div count (effective_fps v))
       (float_of_int (total_frames rc)) = Some (duration_seconds rc)"
    using process_camera_total [OF run v] by simp_all
  have special: "total_frames rc = min 150 (int (length (v_frames v)))
        \<and> duration_seconds rc = float_div (real_of_int (total_frames rc)) 30"
    if d: "duration = 5 \<and> v_fps v = 0"
  proof -
    have f: "effective_fps v = 30" using d by (simp add: effective_fps_def)
    have total: "total_frames rc = min 150 (int (length (v_frames v)))"
      using main d by (simp add: f int_of_product_5_30)
    then have "\<bar>total_frames rc\<bar> \<le> 2 ^ 53" by simp
    then have "float_of_int (total_frames rc) = Some (real_of_int (total_frames rc))"
      by (rule float_of_int_small)
    then have "duration_seconds rc = float_div (real_of_int (total_frames rc)) 30"
      using quot by (simp add: f)
    with total show ?thesis by simp
  qed
  show "map_option (\<lambda>max_frames. min (max max_frames 0) (int (length (v_frames v))))
     (int_of_product duration (effective_fps v)) = Some (total_frames rc)
   \<and> effective_fps v = (if v_fps v = 0 then 30 else v_fps v)
   \<and> map_option (\<lambda>count. float_div count (effective_fps v))
       (float_of_int (total_frames rc)) = Some (duration_seconds rc)
   \<and> (duration = 5 \<and> v_fps v = 0 \<longrightarrow>
        total_frames rc = min 150 (int (length (v_frames v)))
        \<and> duration_seconds rc = float_div (real_of_int (total_frames rc)) 30)"
    using main quot special by (simp add: effective_fps_def)
qed

text \<open>
  Two runs. A device that reports 0 and delivers 200 frames, for 5 seconds: 150 frames and
  a duration of 5.0. A device that reports 29.97 frames per second (the double nearest to
  it) and delivers 3000 frames, for 100 seconds: the float product is 2997.0, though the
  exact product of that double by 100 is below 2997, so the run reads 2997 frames.
\<close>

theorem camera_loop_stops_at_truncated_bound_witness:
  "(\<exists>r ex. process_camera demo_collaborators demo_world 0 ''outputs/out.mp4'' 5 (1 / 2)
       = (Inr r, ex)
     \<and> cameras demo_world 0 = Some (demo_camera 0 200)
     \<and> v_fps (demo_camera 0 200) = 0
     \<and> total_frames r = 150 \<and> duration_seconds r = Finite 5)
   \<and> (\<exists>r ex. process_camera demo_collaborators ntsc_world 0 ''outputs/out.mp4'' 100 (1 / 2)
       = (Inr r, ex)
     \<and> cameras ntsc_world 0 = Some (demo_camera (1054475631502295 / 35184372088832) 3000)
     \<and> to_double (2997 / 100) = Finite (1054475631502295 / 35184372088832)
     \<and> real_of_int 100 * (1054475631502295 / 35184372088832) < 2997
     \<and> total_frames r = 2997 \<and> duration_seconds r = Finite 100)"
proof -
  have c: "cameras demo_world 0 = Some (demo_camera 0 200)"
    by (simp add: demo_world_def)
  have "\<exists>r ex. process_camera demo_collaborators demo_world 0 ''outputs/out.mp4'' 5 (1 / 2)
      = (Inr r, ex)"
    by (rule demo_camera_run [OF c, where m = 150])
       (simp_all add: demo_camera_fps int_of_product_5_30)
  then obtain r ex where run:
    "process_camera demo_collaborators demo_world 0 ''outputs/out.mp4'' 5 (1 / 2) = (Inr r, ex)"
    by blast
  have f: "v_fps (demo_camera 0 200) = 0" "length (v_frames (demo_camera 0 200)) = 200"
    by (simp_all add: demo_camera_def)
  have "total_frames r = min 150 (int (length (v_frames (demo_camera 0 200))))
      \<and> duration_seconds r = float_div (real_of_int (total_frames r)) 30"
    using camera_loop_stops_at_truncated_bound
      [where C = demo_collaborators and w = demo_world and camera_index = 0
         and output_path = "''outputs/out.mp4''" and duration = 5 and t = "1 / 2"
         and rc = r and exc = ex and v = "demo_camera 0 200"]
      run c f(1)
    by blast
  then have one: "total_frames r = 150 \<and> duration_seconds r = Finite 5"
    using f(2) by (simp add: float_div_150_30)
  have cn: "cameras ntsc_world 0 = Some (demo_camera (1054475631502295 / 35184372088832) 3000)"
    by (simp add: ntsc_world_def)
  have fn: "effective_fps (demo_camera (1054475631502295 / 35184372088832) 3000)
      = 1054475631502295 / 35184372088832"
    by (simp add: demo_camera_fps)
  have ln: "length (v_frames (demo_camera (1054475631502295 / 35184372088832) 3000)) = 3000"
    by (rule demo_camera_length)
  have "\<exists>r ex. process_camera demo_collaborators ntsc_world 0 ''outputs/out.mp4'' 100 (1 / 2)
      = (Inr r, ex)"
    by (rule demo_camera_run [OF cn, where m = 2997])
       (simp_all add: fn int_of_product_100_2997)
  then obtain rn exn where runn:
    "process_camera demo_collaborators ntsc_world 0 ''outputs/out.mp4'' 100 (1 / 2)
       = (Inr rn, exn)"
    by blast
  have "map_option (\<lambda>max_frames. min (max max_frames 0) 3000)
       (int_of_product 100 (1054475631502295 / 35184372088832)) = Some (total_frames rn)
     \<and> map_option (\<lambda>count. float_div count (1054475631502295 / 35184372088832))
       (float_of_int (total_frames rn)) = Some (duration_seconds rn)"
    using camera_loop_stops_at_truncated_bound
      [where C = demo_collaborators and w = ntsc_world and camera_index = 0
         and output_path = "''outputs/out.mp4''" and duration = 100 and t = "1 / 2"
         and rc = rn and exc = exn
         and v = "demo_camera (1054475631502295 / 35184372088832) 3000"]
      runn cn
    unfolding fn ln by simp
  then have two: "total_frames rn = 2997 \<and> duration_seconds rn = Finite 100"
    by (auto simp: int_of_product_100_2997 float_of_int_small float_div_2997)
  have below: "real_of_int 100 * (1054475631502295 / 35184372088832) < 2997" by simp
  show ?thesis
    using run c f(1) one runn cn double_2997 below two by blast
qed

text \<open>
  The claim as stated fails where the product is not an integer: with a duration of 5 and
  a device reporting 7.5 frames per second and delivering 200 frames, the loop stops after
  37 frames, with frames left to read, although 37 is less than 5 * 7.5 = 37.5.
\<close>

theorem camera_stop_condition_counterexample:
  "(case process_camera demo_collaborators demo_world 1 ''outputs/out.mp4'' 5 (1 / 2) of
      (res, ex) \<Rightarrow>
        res = Inr \<lparr>total_unique_people = 1, total_frames = 37,
                   duration_seconds = Finite (1388609885105903 / 281474976710656)\<rparr>
        \<and> map_option (\<lambda>c. (cap_pos c, length (cap_frames c))) (source ex) = Some (37, 200))
   \<and> map_option v_fps (cameras demo_world 1) = Some (15 / 2)
   \<and> \<not> (real_of_int 5 * (15 / 2) \<le> real_of_int 37)"
  by (simp add: demo_defs run_defs camera_loop.simps int_of_product_5_7_5 float_of_int_small
        float_div_37_7_5)

section \<open>The frame total\<close>





section \<open>Cleanup\<close>

lemma video_loop_handles:
  assumes run: "video_loop C t cap vs = (eo, cap1, vs1)"
  shows "cap_released cap1 = cap_released cap \<and> w_released (out vs1) = w_released (out vs)
       \<and> w_path (out vs1) = w_path (out vs)"
proof (rule video_loop_invariant
    [where I = "\<lambda>c v. cap_released c = cap_released cap
                  \<and> w_released (out v) = w_released (out vs)
                  \<and> w_path (out v) = w_path (out vs)", OF run])
  fix c v frame c2 v2
  assume i: "cap_released c = cap_released cap \<and> w_released (out v) = w_released (out vs)
      \<and> w_path (out v) = w_path (out vs)"
    and r: "cap_read c = (Some frame, c2)" and b: "frame_body C t v frame = Inr v2"
  show "cap_released c2 = cap_released cap \<and> w_released (out v2) = w_released (out vs)
      \<and> w_path (out v2) = w_path (out vs)"
    using i cap_read_Some [OF r] frame_body_out [OF b] by (simp add: writer_write_def)
next
  fix c v frame c2 e v2
  assume i: "cap_released c = cap_released cap \<and> w_released (out v) = w_released (out vs)
      \<and> w_path (out v) = w_path (out vs)"
    and r: "cap_read c = (Some frame, c2)" and b: "frame_body C t v frame = Inl (e, v2)"
  show "cap_released c2 = cap_released cap \<and> w_released (out v2) = w_released (out vs)
      \<and> w_path (out v2) = w_path (out vs)"
    using i cap_read_Some [OF r] frame_body_Inl [OF b] by simp
next
  fix c v c2
  assume i: "cap_released c = cap_released cap \<and> w_released (out v) = w_released (out vs)
      \<and> w_path (out v) = w_path (out vs)"
    and r: "cap_read c = (None, c2)"
  show "cap_released c2 = cap_released cap \<and> w_released (out v) = w_released (out vs)
      \<and> w_path (out v) = w_path (out vs)"
    using i cap_read_None [OF r] by simp
qed simp

lemma VideoCapture_opened:
  assumes "cap_opened (VideoCapture target)"
  shows "target \<noteq> None \<and> \<not> cap_released (VideoCapture target)"
  using assms by (auto simp: VideoCapture_def split: option.splits if_splits)

text \<open>
  Claim C4, as amended. \<^verbatim>\<open>process_video\<close> cleans up on the exit path of a normal
  return only. When the loop ends by a failed read, the capture and the writer are both
  released and, if the codec repair step made a temporary file (its path differs from the
  input path), that file is deleted before the result is returned. When a collaborator
  raises inside the loop, the exception reaches the caller at once: neither handle has
  been released and the file the run read from, the temporary file included, is still
  there.
\<close>

theorem process_video_cleanup_only_on_return:
  fixes C :: "('p, 'e, 'ts, 'id) collaborators"
  shows
  "fix_video_codec (ffmpeg C) w input_path (replace_mp4 output_path)
       = (Inr video_path :: 'e exn + path, w_fixed) \<longrightarrow>
     (process_video C w input_path output_path t = (Inr r, ex) \<longrightarrow>
        map_option cap_released (source ex) = Some True
        \<and> map_option w_released (sink ex) = Some True
        \<and> (video_path \<noteq> input_path \<longrightarrow> fs (world ex) video_path = None))
     \<and> (process_video C w input_path output_path t = (Inl (Raised e), exr) \<longrightarrow>
        map_option cap_released (source exr) = Some False
        \<and> map_option w_released (sink exr) = Some False
        \<and> fs (world exr) video_path \<noteq> None)"
proof (intro impI conjI)
  assume f: "fix_video_codec (ffmpeg C) w input_path (replace_mp4 output_path)
       = (Inr video_path :: 'e exn + path, w_fixed)"
    and run: "process_video C w input_path output_path t = (Inr r, ex)"
  from run have "map_option cap_released (source ex) = Some True
        \<and> map_option w_released (sink ex) = Some True
        \<and> (video_path \<noteq> input_path \<longrightarrow> fs (world ex) video_path = None)"
  proof (cases rule: process_video_cases)
    case (returned vp w1 out0 w2 cap1 vs out1 w3)
    have same: "vp = video_path" using returned(1) f by simp
    have "w_released out1" using returned(5) by (auto simp: writer_release_def)
    then show ?thesis using returned(7) same by (auto simp: cap_release_def)
  qed simp_all
  then show "map_option cap_released (source ex) = Some True"
    and "map_option w_released (sink ex) = Some True"
    and "video_path \<noteq> input_path \<Longrightarrow> fs (world ex) video_path = None"
    by simp_all
next
  assume f: "fix_video_codec (ffmpeg C) w input_path (replace_mp4 output_path)
       = (Inr video_path :: 'e exn + path, w_fixed)"
    and run: "process_video C w input_path output_path t = (Inl (Raised e), exr)"
  from run have "map_option cap_released (source exr) = Some False
        \<and> map_option w_released (sink exr) = Some False
        \<and> fs (world exr) video_path \<noteq> None"
  proof (cases rule: process_video_cases)
    case (transcode_failed e1 w1)
    then show ?thesis using f by simp
  next
    case (raised vp w1 out0 w2 e1 cap1 vs)
    have same: "vp = video_path" using raised(1) f by simp
    have o: "fs w1 vp \<noteq> None \<and> \<not> cap_released (VideoCapture (fs w1 vp))"
      using VideoCapture_opened [OF raised(2)] by simp
    have w: "\<not> w_released out0 \<and> fs w2 vp \<noteq> None"
      using raised(3) o by (auto simp: VideoWriter_def)
    show ?thesis
      using video_loop_handles [OF raised(4)] o w raised(6) same by simp
  qed simp_all
  then show "map_option cap_released (source exr) = Some False"
    and "map_option w_released (sink exr) = Some False"
    and "fs (world exr) video_path \<noteq> None"
    by simp_all
qed

text \<open>
  The claim as stated fails: on an input the transcoder had to repair, with a detector
  that raises on the second frame, the run ends with that exception, both handles
  unreleased and the temporary file left on disk.
\<close>

theorem cleanup_on_exception_counterexample:
  "(case process_video demo_collaborators demo_world ''uploads/worn.avi'' ''outputs/out.mp4''
          (1 / 2) of
      (res, ex) \<Rightarrow>
        res = Inl (Raised ''corrupt frame'')
        \<and> map_option cap_released (source ex) = Some False
        \<and> map_option w_released (sink ex) = Some False
        \<and> fs (world ex) ''outputs/out_fixed.mp4'' = Some demo_bad_clip)
   \<and> fs demo_world ''outputs/out_fixed.mp4'' = None
   \<and> ''outputs/out_fixed.mp4'' \<noteq> ''uploads/worn.avi''"
  by (simp add: demo_defs run_defs video_loop.simps)

theorem process_video_cleanup_only_on_return_witness:
  "(\<exists>w1. fix_video_codec (ffmpeg demo_collaborators) demo_world ''uploads/old.avi''
            (replace_mp4 ''outputs/out.mp4'')
          = (Inr ''outputs/out_fixed.mp4'' :: string exn + path, w1))
   \<and> (\<exists>r ex. process_video demo_collaborators demo_world ''uploads/old.avi''
            ''outputs/out.mp4'' (1 / 2) = (Inr r, ex)
        \<and> map_option cap_released (source ex) = Some True
        \<and> map_option w_released (sink ex) = Some True
        \<and> ''outputs/out_fixed.mp4'' \<noteq> ''uploads/old.avi''
        \<and> fs (world ex) ''outputs/out_fixed.mp4'' = None)
   \<and> (\<exists>w1. fix_video_codec (ffmpeg demo_collaborators) demo_world ''uploads/worn.avi''
            (replace_mp4 ''outputs/out.mp4'')
          = (Inr ''outputs/out_fixed.mp4'' :: string exn + path, w1))
   \<and> (\<exists>e ex. process_video demo_collaborators demo_world ''uploads/worn.avi''
            ''outputs/out.mp4'' (1 / 2) = (Inl (Raised e), ex)
        \<and> map_option cap_released (source ex) = Some False
        \<and> map_option w_released (sink ex) = Some False
        \<and> fs (world ex) ''outputs/out_fixed.mp4'' \<noteq> None)"
proof -
  obtain w1 where f1:
    "fix_video_codec (ffmpeg demo_collaborators) demo_world ''uploads/old.avi''
       (replace_mp4 ''outputs/out.mp4'')
     = (Inr ''outputs/out_fixed.mp4'' :: string exn + path, w1)"
    by (simp add: demo_defs fix_video_codec_def VideoCapture_def cap_read_def Let_def)
  obtain w2 where f2:
    "fix_video_codec (ffmpeg demo_collaborators) demo_world ''uploads/worn.avi''
       (replace_mp4 ''outputs/out.mp4'')
     = (Inr ''outputs/out_fixed.mp4'' :: string exn + path, w2)"
    by (simp add: demo_defs fix_video_codec_def VideoCapture_def cap_read_def Let_def)
  obtain r ex where ok:
    "process_video demo_collaborators demo_world ''uploads/old.avi'' ''outputs/out.mp4''
       (1 / 2) = (Inr r, ex)"
    by (simp add: demo_defs run_defs video_loop.simps)
  obtain e exr where bad:
    "process_video demo_collaborators demo_world ''uploads/worn.avi'' ''outputs/out.mp4''
       (1 / 2) = (Inl (Raised e), exr)"
    by (simp add: demo_defs run_defs video_loop.simps)
  have ne: "''outputs/out_fixed.mp4'' \<noteq> ''uploads/old.avi''" by simp
  have a: "map_option cap_released (source ex) = Some True
        \<and> map_option w_released (sink ex) = Some True
        \<and> fs (world ex) ''outputs/out_fixed.mp4'' = None"
    using process_video_cleanup_only_on_return
      [where C = demo_collaborators and w = demo_world and input_path = "''uploads/old.avi''"
         and output_path = "''outputs/out.mp4''" and video_path = "''outputs/out_fixed.mp4''"
         and w_fixed = w1 and t = "1 / 2" and r = r and ex = ex]
      f1 ok ne
    by blast
  have b: "map_option cap_released (source exr) = Some False
        \<and> map_option w_released (sink exr) = Some False
        \<and> fs (world exr) ''outputs/out_fixed.mp4'' \<noteq> None"
    using process_video_cleanup_only_on_return
      [where C = demo_collaborators and w = demo_world and input_path = "''uploads/worn.avi''"
         and output_path = "''outputs/out.mp4''" and video_path = "''outputs/out_fixed.mp4''"
         and w_fixed = w2 and t = "1 / 2" and e = e and exr = exr]
      f2 bad
    by blast
  show ?thesis using f1 f2 ok bad ne a b by blast
qed

section \<open>A source that cannot be opened\<close>

text \<open>
  Claim C7, as amended. A camera index that cannot be opened makes \<^verbatim>\<open>process_camera\<close>
  fail with its \<^verbatim>\<open>Failed to open camera\<close> exception; no writer is made and the world is
  left as it was. \<^verbatim>\<open>process_video\<close> runs the codec repair step before it opens anything:
  for an input whose first frame does not decode, a missing file included, the
  transcoder is run, and if it fails the run ends with the transcoder's exception
  (\<^verbatim>\<open>CalledProcessError\<close> or \<^verbatim>\<open>FileNotFoundError\<close>), not with \<^verbatim>\<open>Failed to open video file\<close>;
  that exception is raised when the path the repair step returned does not open. In
  each of these failures no writer is made, so no output file is created by the run.
\<close>

theorem open_failure_makes_no_sink:
  fixes C :: "('p, 'e, 'ts, 'id) collaborators"
  shows
  "(\<not> cap_opened (VideoCapture (cameras w camera_index)) \<longrightarrow>
      process_camera C w camera_index output_path duration t =
        (Inl (Failed_to_open_camera camera_index),
         \<lparr>world = w, source = Some (VideoCapture (cameras w camera_index)), sink = None,
          ids = {}\<rparr>))
   \<and> (fix_video_codec (ffmpeg C) w input_path (replace_mp4 output_path)
         = (Inr video_path :: 'e exn + path, w_fixed)
       \<and> \<not> cap_opened (VideoCapture (fs w_fixed video_path)) \<longrightarrow>
      process_video C w input_path output_path t =
        (Inl Failed_to_open_video_file,
         \<lparr>world = w_fixed, source = Some (VideoCapture (fs w_fixed video_path)), sink = None,
          ids = {}\<rparr>))
   \<and> (\<not> first_frame_decodes w input_path
       \<and> fst (ffmpeg C (fs w) input_path (replace_mp4 output_path)) \<noteq> Exited 0 \<longrightarrow>
      fst (process_video C w input_path output_path t) =
        (case fst (ffmpeg C (fs w) input_path (replace_mp4 output_path)) of
           Exited rc \<Rightarrow> Inl (CalledProcessError rc)
         | Binary_missing \<Rightarrow> Inl FileNotFoundError)
      \<and> sink (snd (process_video C w input_path output_path t)) = None)
   \<and> (process_video C w input_path output_path t = (Inl e, ex) \<and> (\<forall>x. e \<noteq> Raised x) \<longrightarrow>
      sink ex = None)"
proof (intro conjI impI)
  assume "\<not> cap_opened (VideoCapture (cameras w camera_index))"
  then show "process_camera C w camera_index output_path duration t =
        (Inl (Failed_to_open_camera camera_index),
         \<lparr>world = w, source = Some (VideoCapture (cameras w camera_index)), sink = None,
          ids = {}\<rparr>)"
    by (simp add: process_camera_def)
next
  assume "fix_video_codec (ffmpeg C) w input_path (replace_mp4 output_path)
         = (Inr video_path :: 'e exn + path, w_fixed)
       \<and> \<not> cap_opened (VideoCapture (fs w_fixed video_path))"
  then show "process_video C w input_path output_path t =
        (Inl Failed_to_open_video_file,
         \<lparr>world = w_fixed, source = Some (VideoCapture (fs w_fixed video_path)), sink = None,
          ids = {}\<rparr>)"
    by (simp add: process_video_def)
next
  assume a: "\<not> first_frame_decodes w input_path
       \<and> fst (ffmpeg C (fs w) input_path (replace_mp4 output_path)) \<noteq> Exited 0"
  obtain outcome fs1 where o: "ffmpeg C (fs w) input_path (replace_mp4 output_path) = (outcome, fs1)"
    by (cases "ffmpeg C (fs w) input_path (replace_mp4 output_path)") auto
  have "fst (process_video C w input_path output_path t) =
        (case fst (ffmpeg C (fs w) input_path (replace_mp4 output_path)) of
           Exited rc \<Rightarrow> Inl (CalledProcessError rc)
         | Binary_missing \<Rightarrow> Inl FileNotFoundError)
      \<and> sink (snd (process_video C w input_path output_path t)) = None"
    using a o
    by (cases outcome) (simp_all add: process_video_def fix_video_codec_probe Let_def)
  then show "fst (process_video C w input_path output_path t) =
        (case fst (ffmpeg C (fs w) input_path (replace_mp4 output_path)) of
           Exited rc \<Rightarrow> Inl (CalledProcessError rc)
         | Binary_missing \<Rightarrow> Inl FileNotFoundError)"
    and "sink (snd (process_video C w input_path output_path t)) = None"
    by simp_all
next
  assume a: "process_video C w input_path output_path t = (Inl e, ex) \<and> (\<forall>x. e \<noteq> Raised x)"
  then have run: "process_video C w input_path output_path t = (Inl e, ex)" by simp
  from run show "sink ex = None"
    using a by (cases rule: process_video_cases) auto
qed

text \<open>
  The claim as stated fails for a file path that does not exist: the run ends with the
  \<^verbatim>\<open>CalledProcessError\<close> of the transcoder, which exits with status 1 on a missing input,
  and not with \<^verbatim>\<open>Failed to open video file\<close>. No writer is made and no file is created.
\<close>

theorem nonexistent_file_counterexample:
  "fs demo_world ''uploads/gone.mp4'' = None
   \<and> (case process_video demo_collaborators demo_world ''uploads/gone.mp4''
             ''outputs/out.mp4'' (1 / 2) of
        (res, ex) \<Rightarrow>
          res = Inl (CalledProcessError 1) \<and> res \<noteq> Inl Failed_to_open_video_file
          \<and> sink ex = None \<and> fs (world ex) = fs demo_world)"
  by (simp add: demo_defs run_defs)

theorem open_failure_makes_no_sink_witness:
  "\<not> cap_opened (VideoCapture (cameras demo_world 7))
   \<and> process_camera demo_collaborators demo_world 7 ''outputs/out.mp4'' 5 (1 / 2) =
       (Inl (Failed_to_open_camera 7),
        \<lparr>world = demo_world, source = Some (VideoCapture (cameras demo_world 7)), sink = None,
         ids = {}\<rparr>)
   \<and> (\<exists>w1. fix_video_codec (ffmpeg (demo_collaborators\<lparr>ffmpeg := idle_ffmpeg\<rparr>)) demo_world
           ''uploads/gone.mp4'' (replace_mp4 ''outputs/out.mp4'')
         = (Inr ''outputs/out_fixed.mp4'' :: string exn + path, w1)
       \<and> \<not> cap_opened (VideoCapture (fs w1 ''outputs/out_fixed.mp4''))
       \<and> process_video (demo_collaborators\<lparr>ffmpeg := idle_ffmpeg\<rparr>) demo_world
           ''uploads/gone.mp4'' ''outputs/out.mp4'' (1 / 2) =
           (Inl Failed_to_open_video_file,
            \<lparr>world = w1, source = Some (VideoCapture (fs w1 ''outputs/out_fixed.mp4'')),
             sink = None, ids = {}\<rparr>))
   \<and> \<not> first_frame_decodes demo_world ''uploads/gone.mp4''
   \<and> fst (ffmpeg demo_collaborators (fs demo_world) ''uploads/gone.mp4''
        (replace_mp4 ''outputs/out.mp4'')) \<noteq> Exited 0
   \<and> fst (process_video demo_collaborators demo_world ''uploads/gone.mp4''
        ''outputs/out.mp4'' (1 / 2)) = Inl (CalledProcessError 1)
   \<and> sink (snd (process_video demo_collaborators demo_world ''uploads/gone.mp4''
        ''outputs/out.mp4'' (1 / 2))) = None
   \<and> (\<exists>ex. process_video demo_collaborators demo_world ''uploads/gone.mp4''
          ''outputs/out.mp4'' (1 / 2) = (Inl (CalledProcessError 1), ex)
        \<and> (\<forall>x. CalledProcessError 1 \<noteq> (Raised x :: string exn)) \<and> sink ex = None)"
proof -
  have cam: "\<not> cap_opened (VideoCapture (cameras demo_world 7))"
    by (simp add: demo_world_def VideoCapture_def)
  obtain w1 where f:
    "fix_video_codec (ffmpeg (demo_collaborators\<lparr>ffmpeg := idle_ffmpeg\<rparr>)) demo_world
       ''uploads/gone.mp4'' (replace_mp4 ''outputs/out.mp4'')
     = (Inr ''outputs/out_fixed.mp4'' :: string exn + path, w1)"
    and w1: "fs w1 = fs demo_world"
    by (simp add: demo_defs fix_video_codec_def VideoCapture_def cap_read_def Let_def)
  have closed: "\<not> cap_opened (VideoCapture (fs w1 ''outputs/out_fixed.mp4''))"
    by (simp add: w1 demo_world_def VideoCapture_def)
  have nd: "\<not> first_frame_decodes demo_world ''uploads/gone.mp4''"
    by (simp add: first_frame_decodes_iff demo_world_def)
  have nz: "fst (ffmpeg demo_collaborators (fs demo_world) ''uploads/gone.mp4''
        (replace_mp4 ''outputs/out.mp4'')) \<noteq> Exited 0"
    by (simp add: demo_collaborators_def demo_ffmpeg_def demo_world_def)
  have a: "process_camera demo_collaborators demo_world 7 ''outputs/out.mp4'' 5 (1 / 2) =
       (Inl (Failed_to_open_camera 7),
        \<lparr>world = demo_world, source = Some (VideoCapture (cameras demo_world 7)), sink = None,
         ids = {}\<rparr>)"
    using open_failure_makes_no_sink
      [where C = demo_collaborators and w = demo_world and camera_index = 7
         and output_path = "''outputs/out.mp4''" and duration = 5 and t = "1 / 2"]
      cam
    by blast
  have b: "process_video (demo_collaborators\<lparr>ffmpeg := idle_ffmpeg\<rparr>) demo_world
           ''uploads/gone.mp4'' ''outputs/out.mp4'' (1 / 2) =
           (Inl Failed_to_open_video_file,
            \<lparr>world = w1, source = Some (VideoCapture (fs w1 ''outputs/out_fixed.mp4'')),
             sink = None, ids = {}\<rparr>)"
    using open_failure_makes_no_sink
      [where C = "demo_collaborators\<lparr>ffmpeg := idle_ffmpeg\<rparr>" and w = demo_world
         and input_path = "''uploads/gone.mp4''" and output_path = "''outputs/out.mp4''"
         and video_path = "''outputs/out_fixed.mp4''" and w_fixed = w1 and t = "1 / 2"]
      f closed
    by blast
  have c: "fst (process_video demo_collaborators demo_world ''uploads/gone.mp4''
        ''outputs/out.mp4'' (1 / 2)) =
        (case fst (ffmpeg demo_collaborators (fs demo_world) ''uploads/gone.mp4''
                (replace_mp4 ''outputs/out.mp4'')) of
           Exited rc \<Rightarrow> Inl (CalledProcessError rc)
         | Binary_missing \<Rightarrow> Inl FileNotFoundError)
      \<and> sink (snd (process_video demo_collaborators demo_world ''uploads/gone.mp4''
        ''outputs/out.mp4'' (1 / 2))) = None"
    using open_failure_makes_no_sink
      [where C = demo_collaborators and w = demo_world
         and input_path = "''uploads/gone.mp4''" and output_path = "''outputs/out.mp4''"
         and t = "1 / 2"]
      nd nz
    by blast
  have d: "fst (process_video demo_collaborators demo_world ''uploads/gone.mp4''
        ''outputs/out.mp4'' (1 / 2)) = Inl (CalledProcessError 1)"
    using c by (simp add: demo_collaborators_def demo_ffmpeg_def demo_world_def)
  obtain ex where run:
    "process_video demo_collaborators demo_world ''uploads/gone.mp4'' ''outputs/out.mp4''
       (1 / 2) = (Inl (CalledProcessError 1), ex)"
    using d
    by (cases "process_video demo_collaborators demo_world ''uploads/gone.mp4''
          ''outputs/out.mp4'' (1 / 2)") auto
  have ne: "\<forall>x. CalledProcessError 1 \<noteq> (Raised x :: string exn)" by simp
  have e: "sink ex = None"
    using open_failure_makes_no_sink
      [where C = demo_collaborators and w = demo_world
         and input_path = "''uploads/gone.mp4''" and output_path = "''outputs/out.mp4''"
         and t = "1 / 2" and e = "CalledProcessError 1" and ex = ex]
      run ne
    by blast
  show ?thesis using cam a f closed b nd nz c d run ne e by blast
qed

end
